theory Spec2Isabelle
  imports Main
begin

section \<open>Decoded documents and JavaScript values\<close>

text \<open>
  The program (\<^verbatim>\<open>xd_font_list.js\<close>) reads every document with \<^verbatim>\<open>JSON.parse\<close>.
  A decoded document is a value of \<open>json\<close>. An object is the list of its own properties
  in the order \<^verbatim>\<open>Object.keys\<close> gives them; a number is carried as the decimal text that
  JavaScript's number-to-string conversion gives for it, which is the only way the program
  ever consumes a number (as a property key, in a label, a path or a printed line); the
  number zero is the text \<open>''0''\<close>. A string is a list of characters, one per unit the
  program can observe.

  A JavaScript value the program holds in a field is \<open>json option\<close>: \<open>None\<close> is
  \<^verbatim>\<open>undefined\<close>, which \<^verbatim>\<open>JSON.parse\<close> never produces but a read of a missing property
  does.
\<close>

datatype json =
    JNull
  | JBool bool
  | JNum string
  | JStr string
  | JArr "json list"
  | JObj "(string \<times> json) list"

type_synonym jsval = "json option"

datatype error = TypeError | SyntaxError

text \<open>
  \<^verbatim>\<open>v.p\<close> and \<^verbatim>\<open>v['p']\<close> for the property names the program reads (\<open>fontFamily\<close>,
  \<open>fontStyle\<close>, \<open>postscriptName\<close>, \<open>family\<close>, \<open>style\<close>, \<open>name\<close>, \<open>id\<close>, \<open>path\<close>,
  \<open>children\<close>): none of them is a property of a built-in prototype, so the read gives the
  object's own property or \<^verbatim>\<open>undefined\<close>; on \<^verbatim>\<open>null\<close> it throws a TypeError.
\<close>

fun getProp :: "json \<Rightarrow> string \<Rightarrow> error + jsval" where
  "getProp JNull p = Inl TypeError"
| "getProp (JObj ps) p = Inr (map_of ps p)"
| "getProp v p = Inr None"

text \<open>The truth value of a decoded value, as \<^verbatim>\<open>if (v)\<close> and \<^verbatim>\<open>v && ...\<close> take it.\<close>

fun truthy :: "json \<Rightarrow> bool" where
  "truthy JNull = False"
| "truthy (JBool b) = b"
| "truthy (JNum n) = (n \<noteq> ''0'')"
| "truthy (JStr s) = (s \<noteq> [])"
| "truthy (JArr xs) = True"
| "truthy (JObj ps) = True"

text \<open>
  Conversion to a string, as a property key (\<^verbatim>\<open>fonts[font.id]\<close>), a template literal and
  string concatenation perform it. An array is joined with commas, \<^verbatim>\<open>null\<close> elements
  giving the empty text. An object gives \<^verbatim>\<open>[object Object]\<close>, unless it has an own
  property \<open>toString\<close>: a decoded value is never callable, so the conversion then finds
  no method that returns a primitive and throws a TypeError.
\<close>

fun toStr :: "json \<Rightarrow> error + string"
  and joinStr :: "json list \<Rightarrow> error + string" where
  "toStr JNull = Inr ''null''"
| "toStr (JBool b) = Inr (if b then ''true'' else ''false'')"
| "toStr (JNum n) = Inr n"
| "toStr (JStr s) = Inr s"
| "toStr (JArr xs) = joinStr xs"
| "toStr (JObj ps) =
     (if ''toString'' \<in> set (map fst ps) then Inl TypeError else Inr ''[object Object]'')"
| "joinStr [] = Inr []"
| "joinStr (x # xs) =
     (case (if x = JNull then Inr [] else toStr x) of
        Inl e \<Rightarrow> Inl e
      | Inr s \<Rightarrow>
          (if xs = [] then Inr s
           else (case joinStr xs of Inl e \<Rightarrow> Inl e | Inr t \<Rightarrow> Inr (s @ '','' @ t))))"

fun toStrV :: "jsval \<Rightarrow> error + string" where
  "toStrV None = Inr ''undefined''"
| "toStrV (Some v) = toStr v"

section \<open>FontData\<close>

record FontData =
  name :: jsval
  style :: jsval
  postScriptName :: jsval
  usages :: "string list"

text \<open>The constructor: a \<^verbatim>\<open>null\<close> or \<^verbatim>\<open>undefined\<close> style becomes the empty string.\<close>

definition newFontData :: "jsval \<Rightarrow> jsval \<Rightarrow> jsval \<Rightarrow> FontData" where
  "newFontData n s p =
     \<lparr>name = n,
      style = (if s = Some JNull \<or> s = None then Some (JStr []) else s),
      postScriptName = p,
      usages = []\<rparr>"

text \<open>The getter \<^verbatim>\<open>id\<close>.\<close>

definition fontId :: "FontData \<Rightarrow> jsval" where
  "fontId f = postScriptName f"

definition addUsage :: "string \<Rightarrow> FontData \<Rightarrow> FontData" where
  "addUsage u f = (if u \<in> set (usages f) then f else f\<lparr>usages := usages f @ [u]\<rparr>)"

text \<open>
  \<^verbatim>\<open>getUsages\<close>: the printed block of one font. Both \<open>name\<close> and \<open>style\<close> are
  concatenated to strings, which converts them.
\<close>

definition getUsages :: "FontData \<Rightarrow> error + string" where
  "getUsages f =
     (case toStrV (name f) of
        Inl e \<Rightarrow> Inl e
      | Inr n \<Rightarrow>
          (case toStrV (style f) of
             Inl e \<Rightarrow> Inl e
           | Inr s \<Rightarrow>
               Inr (n @ '':'' @ s @ [CHR 0x0A]
                    @ concat (map (\<lambda>u. ''  - '' @ u @ [CHR 0x0A]) (usages f)))))"

section \<open>Objects that map identities to fonts\<close>

text \<open>
  Both the page's \<^verbatim>\<open>fonts\<close> and the catalog \<^verbatim>\<open>fonts\<close> of \<^verbatim>\<open>makeList\<close> start as \<^verbatim>\<open>{}\<close>
  and are written with \<^verbatim>\<open>fonts[key] = font\<close>. \<open>props\<close> is the list of own properties in
  \<^verbatim>\<open>Object.keys\<close> order: keys that are array indices (canonical decimal numerals below
  \<open>2^32 - 1\<close>) first, ascending, then every other key in the order of its creation.
  \<open>protoFont\<close> records that the key \<open>__proto__\<close> was assigned: that assignment runs the
  setter inherited from \<^verbatim>\<open>Object.prototype\<close>, which makes the font the object's prototype
  and creates no own property.
\<close>

record FontsObj =
  props :: "(string \<times> FontData) list"
  protoFont :: bool

definition emptyFonts :: FontsObj where
  "emptyFonts = \<lparr>props = [], protoFont = False\<rparr>"

definition digitVal :: "char \<Rightarrow> nat" where
  "digitVal c = of_char c - 48"

definition isDigit :: "char \<Rightarrow> bool" where
  "isDigit c = (48 \<le> (of_char c :: nat) \<and> (of_char c :: nat) \<le> 57)"

definition decVal :: "string \<Rightarrow> nat" where
  "decVal s = foldl (\<lambda>n c. 10 * n + digitVal c) 0 s"

definition isArrayIndex :: "string \<Rightarrow> bool" where
  "isArrayIndex s =
     (s \<noteq> [] \<and> list_all isDigit s \<and> (s = ''0'' \<or> hd s \<noteq> CHR ''0'') \<and>
      decVal s < 4294967295)"

text \<open>\<open>keyBefore k k'\<close>: a new key \<open>k\<close> is enumerated before the existing key \<open>k'\<close>.\<close>

definition keyBefore :: "string \<Rightarrow> string \<Rightarrow> bool" where
  "keyBefore k k' = (isArrayIndex k \<and> (\<not> isArrayIndex k' \<or> decVal k < decVal k'))"

text \<open>Writing an own property. An existing key keeps its place and takes the new value
  (\<open>updProp\<close>); a new key takes its place in the enumeration order (\<open>insProp\<close>).\<close>

fun updProp :: "string \<Rightarrow> 'a \<Rightarrow> (string \<times> 'a) list \<Rightarrow> (string \<times> 'a) list" where
  "updProp k v [] = []"
| "updProp k v ((k', v') # ps) =
     (if k = k' then (k, v) # ps else (k', v') # updProp k v ps)"

fun insProp :: "string \<Rightarrow> 'a \<Rightarrow> (string \<times> 'a) list \<Rightarrow> (string \<times> 'a) list" where
  "insProp k v [] = [(k, v)]"
| "insProp k v ((k', v') # ps) =
     (if keyBefore k k' then (k, v) # (k', v') # ps else (k', v') # insProp k v ps)"

text \<open>
  \<^verbatim>\<open>fonts[key] = font\<close> in strict code (everything inside a class body is strict). Once a
  font is the prototype, the key \<open>id\<close> is found there as an accessor without a setter
  (\<^verbatim>\<open>get id()\<close> of \<^verbatim>\<open>FontData\<close>) and the assignment throws; every other inherited
  property is a writable data property, so the assignment creates an own property.
\<close>

definition assignFont :: "string \<Rightarrow> FontData \<Rightarrow> FontsObj \<Rightarrow> error + FontsObj" where
  "assignFont k f fo =
     (if k \<in> set (map fst (props fo)) then Inr (fo\<lparr>props := updProp k f (props fo)\<rparr>)
      else if k = ''__proto__'' then Inr (fo\<lparr>protoFont := True\<rparr>)
      else if protoFont fo \<and> k = ''id'' then Inl TypeError
      else Inr (fo\<lparr>props := insProp k f (props fo)\<rparr>))"

text \<open>\<^verbatim>\<open>this.fonts[font.id] = font\<close>: the identity is converted to a property key first.\<close>

definition setFont :: "FontData \<Rightarrow> FontsObj \<Rightarrow> error + FontsObj" where
  "setFont f fo =
     (case toStrV (fontId f) of Inl e \<Rightarrow> Inl e | Inr k \<Rightarrow> assignFont k f fo)"

section \<open>ArtBoard: the scan of one page\<close>

text \<open>
  The two declaration shapes. \<open>inlineFont\<close> is
  \<^verbatim>\<open>new FontData(obj.fontFamily, obj.fontStyle, obj.postscriptName)\<close> for an object with the
  own properties \<open>ps\<close>; \<open>nestedFont\<close> is
  \<^verbatim>\<open>new FontData(obj[k]['family'], obj[k]['style'], obj[k]['postscriptName'])\<close> for the value
  \<open>v\<close> of a property named \<open>font\<close>, whatever that value is: the source does not test that it
  is an object, so \<^verbatim>\<open>null\<close> throws and any other scalar gives a font of three
  \<^verbatim>\<open>undefined\<close> fields.
\<close>

definition inlineFont :: "(string \<times> json) list \<Rightarrow> FontData" where
  "inlineFont ps =
     newFontData (map_of ps ''fontFamily'') (map_of ps ''fontStyle'') (map_of ps ''postscriptName'')"

definition nestedFont :: "json \<Rightarrow> error + FontData" where
  "nestedFont v =
     (case getProp v ''family'' of
        Inl e \<Rightarrow> Inl e
      | Inr n \<Rightarrow>
          (case getProp v ''style'' of
             Inl e \<Rightarrow> Inl e
           | Inr s \<Rightarrow>
               (case getProp v ''postscriptName'' of
                  Inl e \<Rightarrow> Inl e
                | Inr p \<Rightarrow> Inr (newFontData n s p))))"

text \<open>
  \<^verbatim>\<open>findFonts\<close>, with the page's \<^verbatim>\<open>fonts\<close> object passed through. \<open>findFontsItems\<close> is
  \<^verbatim>\<open>obj.forEach(item => this.findFonts(item))\<close>; \<open>findFontsKeys\<close> is the
  \<^verbatim>\<open>Object.keys(obj).forEach\<close> loop, which visits each own property once, in key order,
  with its value \<^verbatim>\<open>obj[k]\<close>. A thrown error ends the scan.
\<close>

fun findFonts :: "json \<Rightarrow> FontsObj \<Rightarrow> error + FontsObj"
  and findFontsItems :: "json list \<Rightarrow> FontsObj \<Rightarrow> error + FontsObj"
  and findFontsKeys :: "(string \<times> json) list \<Rightarrow> FontsObj \<Rightarrow> error + FontsObj" where
  "findFonts (JArr xs) fo = findFontsItems xs fo"
| "findFonts (JObj ps) fo =
     (case (if map_of ps ''fontFamily'' \<noteq> None then setFont (inlineFont ps) fo else Inr fo) of
        Inl e \<Rightarrow> Inl e
      | Inr fo' \<Rightarrow> findFontsKeys ps fo')"
| "findFonts JNull fo = Inr fo"
| "findFonts (JBool b) fo = Inr fo"
| "findFonts (JNum n) fo = Inr fo"
| "findFonts (JStr s) fo = Inr fo"
| "findFontsItems [] fo = Inr fo"
| "findFontsItems (x # xs) fo =
     (case findFonts x fo of Inl e \<Rightarrow> Inl e | Inr fo' \<Rightarrow> findFontsItems xs fo')"
| "findFontsKeys [] fo = Inr fo"
| "findFontsKeys ((k, v) # ps) fo =
     (case (if k = ''font''
            then (case nestedFont v of Inl e \<Rightarrow> Inl e | Inr f \<Rightarrow> setFont f fo)
            else Inr fo) of
        Inl e \<Rightarrow> Inl e
      | Inr fo1 \<Rightarrow>
          (case findFonts v fo1 of Inl e \<Rightarrow> Inl e | Inr fo2 \<Rightarrow> findFontsKeys ps fo2))"

text \<open>\<^verbatim>\<open>updateFonts\<close>: the map is rebuilt from the empty object on every call.\<close>

definition updateFonts :: "json \<Rightarrow> error + FontsObj" where
  "updateFonts contents = (if truthy contents then findFonts contents emptyFonts else Inr emptyFonts)"

section \<open>ArtBoardIndex and Manifest\<close>

record ArtBoardIndex =
  index_contents :: json
  index_id :: jsval
  index_name :: jsval
  index_path :: jsval

text \<open>The constructor reads three properties of the manifest child it is given.\<close>

definition newArtBoardIndex :: "json \<Rightarrow> error + ArtBoardIndex" where
  "newArtBoardIndex object =
     (case getProp object ''id'' of
        Inl e \<Rightarrow> Inl e
      | Inr i \<Rightarrow>
          (case getProp object ''name'' of
             Inl e \<Rightarrow> Inl e
           | Inr n \<Rightarrow>
               (case getProp object ''path'' of
                  Inl e \<Rightarrow> Inl e
                | Inr p \<Rightarrow>
                    Inr \<lparr>index_contents = object, index_id = i, index_name = n, index_path = p\<rparr>)))"

text \<open>
  \<^verbatim>\<open>isArtBoard\<close> is \<^verbatim>\<open>this.path.startsWith('artboard')\<close>: only a string has that method,
  on every other value the call throws.
\<close>

definition isArtBoard :: "ArtBoardIndex \<Rightarrow> error + bool" where
  "isArtBoard b =
     (case index_path b of
        Some (JStr p) \<Rightarrow> Inr (take (length ''artboard'') p = ''artboard'')
      | _ \<Rightarrow> Inl TypeError)"

definition getDataPath :: "ArtBoardIndex \<Rightarrow> error + string" where
  "getDataPath b =
     (case toStrV (index_path b) of
        Inl e \<Rightarrow> Inl e
      | Inr p \<Rightarrow> Inr (''artwork/'' @ p @ ''/graphics/graphicContent.agc''))"

text \<open>
  What \<^verbatim>\<open>for (let child of v)\<close> iterates: the elements of an array, the characters of a
  string; every other decoded value is not iterable and the loop throws.
\<close>

fun iterate :: "json \<Rightarrow> error + json list" where
  "iterate (JArr xs) = Inr xs"
| "iterate (JStr s) = Inr (map (\<lambda>c. JStr [c]) s)"
| "iterate v = Inl TypeError"

text \<open>The loop of \<^verbatim>\<open>getArtWork\<close>: the first child named \<open>artwork\<close>.\<close>

fun findArtWork :: "json list \<Rightarrow> error + jsval" where
  "findArtWork [] = Inr None"
| "findArtWork (child # cs) =
     (case getProp child ''name'' of
        Inl e \<Rightarrow> Inl e
      | Inr n \<Rightarrow> if n = Some (JStr ''artwork'') then Inr (Some child) else findArtWork cs)"

definition getArtWork :: "json \<Rightarrow> error + jsval" where
  "getArtWork manifest =
     (case getProp manifest ''children'' of
        Inl e \<Rightarrow> Inl e
      | Inr None \<Rightarrow> Inr None
      | Inr (Some c) \<Rightarrow>
          (case iterate c of Inl e \<Rightarrow> Inl e | Inr cs \<Rightarrow> findArtWork cs))"

text \<open>
  The loop of \<^verbatim>\<open>getArtBoards\<close>. \<^verbatim>\<open>board.isLoaded\<close> asks whether the child is neither
  \<^verbatim>\<open>undefined\<close> nor \<^verbatim>\<open>null\<close>.
\<close>

fun collectBoards :: "json list \<Rightarrow> error + ArtBoardIndex list" where
  "collectBoards [] = Inr []"
| "collectBoards (child # cs) =
     (case getProp child ''name'' of
        Inl e \<Rightarrow> Inl e
      | Inr n \<Rightarrow>
          if n = Some (JStr ''pasteboard'') then collectBoards cs
          else
            (case newArtBoardIndex child of
               Inl e \<Rightarrow> Inl e
             | Inr board \<Rightarrow>
                 if index_contents board = JNull then collectBoards cs
                 else (case collectBoards cs of Inl e \<Rightarrow> Inl e | Inr bs \<Rightarrow> Inr (board # bs))))"

definition getArtBoards :: "json \<Rightarrow> error + ArtBoardIndex list option" where
  "getArtBoards manifest =
     (case getArtWork manifest of
        Inl e \<Rightarrow> Inl e
      | Inr None \<Rightarrow> Inr None
      | Inr (Some artWork) \<Rightarrow>
          (case getProp artWork ''children'' of
             Inl e \<Rightarrow> Inl e
           | Inr None \<Rightarrow> Inr None
           | Inr (Some c) \<Rightarrow>
               (case iterate c of
                  Inl e \<Rightarrow> Inl e
                | Inr cs \<Rightarrow> (case collectBoards cs of Inl e \<Rightarrow> Inl e | Inr bs \<Rightarrow> Inr (Some bs)))))"

section \<open>XdFonts.makeList and the program\<close>

text \<open>
  The archive, once opened: \<^verbatim>\<open>zip.getEntry(name)\<close> is \<open>None\<close> for a name the archive does
  not hold (the library returns \<^verbatim>\<open>null\<close>), and otherwise the entry's text as
  \<^verbatim>\<open>JSON.parse\<close> reads it: \<open>Malformed\<close> when it is not well-formed JSON.
\<close>

datatype entry = Malformed | Text json

type_synonym archive = "string \<Rightarrow> entry option"

text \<open>\<^verbatim>\<open>JSON.parse(entry.getData().toString('utf8'))\<close>: \<^verbatim>\<open>getData\<close> is called on the result
  of \<^verbatim>\<open>getEntry\<close> without a test, so a missing entry throws a TypeError.\<close>

fun parseEntry :: "entry option \<Rightarrow> error + json" where
  "parseEntry None = Inl TypeError"
| "parseEntry (Some Malformed) = Inl SyntaxError"
| "parseEntry (Some (Text v)) = Inr v"

text \<open>
  What \<^verbatim>\<open>console.log\<close> prints: the diagnostic of a manifest that did not load, the
  diagnostic of a page that did not load (with its data path), or the block of one font.
  The two diagnostics are fixed Japanese sentences; the model keeps which one was printed.
\<close>

datatype line = ManifestNotLoaded | PageNotLoaded string | FontBlock string

text \<open>The label of a page: \<^verbatim>\<open>index.name + ` [${index.id}]`\<close>.\<close>

definition pageLabel :: "ArtBoardIndex \<Rightarrow> error + string" where
  "pageLabel b =
     (case toStrV (index_id b) of
        Inl e \<Rightarrow> Inl e
      | Inr i \<Rightarrow>
          (case toStrV (index_name b) of
             Inl e \<Rightarrow> Inl e
           | Inr n \<Rightarrow> Inr (n @ '' ['' @ i @ '']'')))"

text \<open>
  The body of \<^verbatim>\<open>Object.keys(artBoard.fonts).forEach\<close> in \<^verbatim>\<open>makeList\<close>, over the page's
  own properties in key order. \<^verbatim>\<open>fonts.hasOwnProperty(key)\<close> calls whatever the catalog
  has under \<open>hasOwnProperty\<close>: once a font was stored under that key the call throws.
\<close>

fun mergeFonts :: "(string \<times> FontData) list \<Rightarrow> ArtBoardIndex \<Rightarrow> FontsObj \<Rightarrow> error + FontsObj" where
  "mergeFonts [] index fonts = Inr fonts"
| "mergeFonts ((key, pf) # rest) index fonts =
     (if ''hasOwnProperty'' \<in> set (map fst (props fonts)) then Inl TypeError
      else
        (case map_of (props fonts) key of
           Some font \<Rightarrow>
             (case pageLabel index of
                Inl e \<Rightarrow> Inl e
              | Inr l \<Rightarrow>
                  mergeFonts rest index (fonts\<lparr>props := updProp key (addUsage l font) (props fonts)\<rparr>))
         | None \<Rightarrow>
             (case assignFont key pf fonts of
                Inl e \<Rightarrow> Inl e
              | Inr fonts' \<Rightarrow> mergeFonts rest index fonts')))"

text \<open>The \<^verbatim>\<open>for (let index of indices)\<close> loop, with the printed lines and the catalog as its
  state. A page whose document is \<^verbatim>\<open>null\<close> (\<^verbatim>\<open>isLoaded\<close> is false) is reported and
  skipped; nothing catches an error thrown on the way.\<close>

fun processPages ::
  "archive \<Rightarrow> ArtBoardIndex list \<Rightarrow> line list \<times> FontsObj \<Rightarrow> error + line list \<times> FontsObj" where
  "processPages ar [] st = Inr st"
| "processPages ar (index # rest) (out, fonts) =
     (case getDataPath index of
        Inl e \<Rightarrow> Inl e
      | Inr dataPath \<Rightarrow>
          (case parseEntry (ar dataPath) of
             Inl e \<Rightarrow> Inl e
           | Inr contents \<Rightarrow>
               if contents = JNull
               then processPages ar rest (out @ [PageNotLoaded dataPath], fonts)
               else
                 (case updateFonts contents of
                    Inl e \<Rightarrow> Inl e
                  | Inr artBoardFonts \<Rightarrow>
                      (case mergeFonts (props artBoardFonts) index fonts of
                         Inl e \<Rightarrow> Inl e
                       | Inr fonts' \<Rightarrow> processPages ar rest (out, fonts')))))"

definition makeList :: "archive \<Rightarrow> error + line list \<times> FontsObj" where
  "makeList ar =
     (case parseEntry (ar ''manifest'') of
        Inl e \<Rightarrow> Inl e
      | Inr manifest \<Rightarrow>
          if manifest = JNull then Inr ([ManifestNotLoaded], emptyFonts)
          else
            (case getArtBoards manifest of
               Inl e \<Rightarrow> Inl e
             | Inr None \<Rightarrow> Inr ([], emptyFonts)
             | Inr (Some indices) \<Rightarrow> processPages ar indices ([], emptyFonts)))"

text \<open>The printing loop at the end of the program, one \<^verbatim>\<open>console.log\<close> per catalog entry.\<close>

fun printFonts :: "(string \<times> FontData) list \<Rightarrow> error + line list" where
  "printFonts [] = Inr []"
| "printFonts ((key, f) # rest) =
     (case getUsages f of
        Inl e \<Rightarrow> Inl e
      | Inr b \<Rightarrow> (case printFonts rest of Inl e \<Rightarrow> Inl e | Inr ls \<Rightarrow> Inr (FontBlock b # ls)))"

text \<open>
  The whole run on an opened archive: \<open>Inr\<close> of everything printed when the program ends
  normally, \<open>Inl\<close> when an error is thrown and reaches the top level uncaught.
\<close>

definition run :: "archive \<Rightarrow> error + line list" where
  "run ar =
     (case makeList ar of
        Inl e \<Rightarrow> Inl e
      | Inr (out, fonts) \<Rightarrow>
          (case printFonts (props fonts) of Inl e \<Rightarrow> Inl e | Inr ls \<Rightarrow> Inr (out @ ls)))"

section \<open>Notions used to state the properties\<close>

text \<open>Two fonts agree on what the constructor was given.\<close>

definition sameFont :: "FontData \<Rightarrow> FontData \<Rightarrow> bool" where
  "sameFont f g = (name f = name g \<and> style f = style g \<and> postScriptName f = postScriptName g)"

text \<open>
  What holds of every page font map the scan builds: its keys are pairwise different, none
  is \<open>__proto__\<close>, and every font sits under the key its identity converts to, with no
  usage recorded and a style that is neither \<^verbatim>\<open>undefined\<close> nor \<^verbatim>\<open>null\<close>.
\<close>

definition pageOK :: "FontsObj \<Rightarrow> bool" where
  "pageOK fo =
     (distinct (map fst (props fo)) \<and> map_of (props fo) ''__proto__'' = None \<and>
      (\<forall>k f. map_of (props fo) k = Some f \<longrightarrow>
         toStrV (fontId f) = Inr k \<and> usages f = [] \<and> style f \<noteq> None \<and> style f \<noteq> Some JNull))"

text \<open>
  The font map of a page as \<^verbatim>\<open>makeList\<close> obtains it (data path, entry, parse,
  \<^verbatim>\<open>updateFonts\<close>), when every step succeeds and the page is loaded.
\<close>

definition pageFonts :: "archive \<Rightarrow> ArtBoardIndex \<Rightarrow> FontsObj option" where
  "pageFonts ar index =
     (case getDataPath index of
        Inl e \<Rightarrow> None
      | Inr dataPath \<Rightarrow>
          (case parseEntry (ar dataPath) of
             Inl e \<Rightarrow> None
           | Inr contents \<Rightarrow>
               if contents = JNull then None
               else (case updateFonts contents of Inl e \<Rightarrow> None | Inr fo \<Rightarrow> Some fo)))"

text \<open>
  The declaration under identity \<open>k\<close> that the catalog meets first: the entry for \<open>k\<close> in
  the font map of the first page, in enumeration order, whose font map has one.
\<close>

fun firstDeclared :: "archive \<Rightarrow> ArtBoardIndex list \<Rightarrow> string \<Rightarrow> FontData option" where
  "firstDeclared ar [] k = None"
| "firstDeclared ar (index # rest) k =
     (case pageFonts ar index of
        None \<Rightarrow> firstDeclared ar rest k
      | Some fo \<Rightarrow>
          (case map_of (props fo) k of None \<Rightarrow> firstDeclared ar rest k | Some g \<Rightarrow> Some g))"

text \<open>
  A document holds a font fragment without \<open>postscriptName\<close>: somewhere in it there is an
  object that has \<open>fontFamily\<close> and no \<open>postscriptName\<close> (the inline shape), or a property
  named \<open>font\<close> whose value has no \<open>postscriptName\<close> (the nested shape).
\<close>

fun declaresUndefined :: "json \<Rightarrow> bool"
  and declaresUndefinedItems :: "json list \<Rightarrow> bool"
  and declaresUndefinedKeys :: "(string \<times> json) list \<Rightarrow> bool" where
  "declaresUndefined (JArr xs) = declaresUndefinedItems xs"
| "declaresUndefined (JObj ps) =
     ((map_of ps ''fontFamily'' \<noteq> None \<and> map_of ps ''postscriptName'' = None) \<or>
      declaresUndefinedKeys ps)"
| "declaresUndefined JNull = False"
| "declaresUndefined (JBool b) = False"
| "declaresUndefined (JNum n) = False"
| "declaresUndefined (JStr s) = False"
| "declaresUndefinedItems [] = False"
| "declaresUndefinedItems (x # xs) = (declaresUndefined x \<or> declaresUndefinedItems xs)"
| "declaresUndefinedKeys [] = False"
| "declaresUndefinedKeys ((k, v) # ps) =
     ((k = ''font'' \<and> getProp v ''postscriptName'' = Inr None) \<or> declaresUndefined v \<or>
      declaresUndefinedKeys ps)"

section \<open>Example archives\<close>

text \<open>
  A manifest with the two pages \<open>A\<close> (id \<open>1\<close>) and \<open>B\<close> (id \<open>2\<close>), the same with the
  pasteboard between them, and one whose only entry has a path without the \<open>artboard\<close>
  prefix; the data paths of \<open>A\<close> and \<open>B\<close>; and documents that declare fonts.
\<close>

definition boardA :: json where
  "boardA = JObj [(''id'', JStr ''1''), (''name'', JStr ''A''), (''path'', JStr ''artboard-1'')]"

definition boardB :: json where
  "boardB = JObj [(''id'', JStr ''2''), (''name'', JStr ''B''), (''path'', JStr ''artboard-2'')]"

definition boardP :: json where
  "boardP = JObj [(''id'', JStr ''p''), (''name'', JStr ''pasteboard''), (''path'', JStr ''pasteboard'')]"


definition artWorkAB :: json where
  "artWorkAB = JObj [(''name'', JStr ''artwork''), (''children'', JArr [boardA, boardB])]"



definition manifestAB :: json where
  "manifestAB = JObj [(''children'', JArr [artWorkAB])]"



definition indexA :: ArtBoardIndex where
  "indexA = \<lparr>index_contents = boardA, index_id = Some (JStr ''1''), index_name = Some (JStr ''A''),
              index_path = Some (JStr ''artboard-1'')\<rparr>"

definition indexB :: ArtBoardIndex where
  "indexB = \<lparr>index_contents = boardB, index_id = Some (JStr ''2''), index_name = Some (JStr ''B''),
              index_path = Some (JStr ''artboard-2'')\<rparr>"


definition pathA :: string where
  "pathA = ''artwork/artboard-1/graphics/graphicContent.agc''"

definition pathB :: string where
  "pathB = ''artwork/artboard-2/graphics/graphicContent.agc''"

definition barFragment :: json where
  "barFragment = JObj [(''fontFamily'', JStr ''Bar''), (''postscriptName'', JStr ''Bar-Reg'')]"

definition barFont :: FontData where
  "barFont = \<lparr>name = Some (JStr ''Bar''), style = Some (JStr []),
               postScriptName = Some (JStr ''Bar-Reg''), usages = []\<rparr>"

definition firstX :: json where
  "firstX = JObj [(''fontFamily'', JStr ''First''), (''postscriptName'', JStr ''X'')]"

definition secondX :: json where
  "secondX = JObj [(''text'', JObj [(''font'', JObj [(''family'', JStr ''Second''),
                     (''style'', JStr ''Bold''), (''postscriptName'', JStr ''X'')])])]"

definition fontFirstX :: FontData where
  "fontFirstX = \<lparr>name = Some (JStr ''First''), style = Some (JStr []),
                  postScriptName = Some (JStr ''X''), usages = []\<rparr>"

definition archiveX :: archive where
  "archiveX = map_of [(''manifest'', Text manifestAB), (pathA, Text firstX), (pathB, Text secondX)]"

definition archiveBar :: archive where
  "archiveBar = map_of [(''manifest'', Text manifestAB),
                        (pathA, Text (JArr [barFragment, barFragment])), (pathB, Text barFragment)]"

definition archiveNoA :: archive where
  "archiveNoA = map_of [(''manifest'', Text manifestAB), (pathB, Text barFragment)]"

definition archiveBadA :: archive where
  "archiveBadA = map_of [(''manifest'', Text manifestAB), (pathA, Malformed), (pathB, Text barFragment)]"

definition archiveNullA :: archive where
  "archiveNullA = map_of [(''manifest'', Text manifestAB), (pathA, Text JNull), (pathB, Text barFragment)]"

definition archiveNullManifest :: archive where
  "archiveNullManifest = map_of [(''manifest'', Text JNull)]"

definition archiveNoArtwork :: archive where
  "archiveNoArtwork = map_of [(''manifest'', Text (JObj [(''children'', JArr [])]))]"

definition manifestOnlyPasteboard :: json where
  "manifestOnlyPasteboard =
     JObj [(''children'', JArr [JObj [(''name'', JStr ''artwork''), (''children'', JArr [boardP])]])]"

definition archiveOnlyPasteboard :: archive where
  "archiveOnlyPasteboard = map_of [(''manifest'', Text manifestOnlyPasteboard)]"



definition undefinedDoc :: json where
  "undefinedDoc =
     JObj [(''fontFamily'', JStr ''Bar''),
           (''font'', JObj [(''family'', JStr ''Foo''), (''style'', JStr ''Bold'')])]"

definition archiveUndefined :: archive where
  "archiveUndefined =
     map_of [(''manifest'', Text manifestAB), (pathA, Text undefinedDoc), (pathB, Text barFragment)]"

text \<open>The defining equations that evaluate the program on a concrete archive.\<close>

lemmas eval_defs = makeList_def getArtBoards_def getArtWork_def newArtBoardIndex_def
  getDataPath_def updateFonts_def emptyFonts_def setFont_def assignFont_def inlineFont_def
  nestedFont_def newFontData_def fontId_def pageLabel_def addUsage_def keyBefore_def
  isArrayIndex_def isDigit_def run_def getUsages_def isArtBoard_def

lemmas example_defs = boardA_def boardB_def artWorkAB_def manifestAB_def indexA_def indexB_def
  pathA_def pathB_def barFragment_def barFont_def

section \<open>Own-property lists\<close>

lemma keys_updProp: "map fst (updProp k v ps) = map fst ps"
  by (induction ps) auto

lemma map_of_updProp:
  "map_of (updProp k v ps) = (if map_of ps k = None then map_of ps else (map_of ps)(k \<mapsto> v))"
  by (induction ps) (auto simp: fun_eq_iff)

lemma map_of_insProp: "map_of ps k = None \<Longrightarrow> map_of (insProp k v ps) = (map_of ps)(k \<mapsto> v)"
  by (induction ps) (auto simp: fun_eq_iff split: if_splits)

lemma keys_insProp: "set (map fst (insProp k v ps)) = insert k (set (map fst ps))"
  by (induction k v ps rule: insProp.induct) (simp_all add: insert_commute del: set_map)

lemma keys_map_of: "(k \<in> set (map fst ps)) = (map_of ps k \<noteq> None)"
  by (induction ps) auto

lemma distinct_insProp:
  "distinct (map fst ps) \<Longrightarrow> k \<notin> set (map fst ps) \<Longrightarrow> distinct (map fst (insProp k v ps))"
proof (induction ps)
  case Nil
  then show ?case by simp
next
  case (Cons p ps)
  obtain k' v' where p: "p = (k', v')" by (cases p)
  from Cons.prems have "k \<noteq> k'" "k \<notin> set (map fst ps)" "k' \<notin> set (map fst ps)"
    "distinct (map fst ps)" by (auto simp: p)
  with Cons.IH show ?case
    using keys_insProp [of k v ps] by (auto simp: p simp del: set_map)
qed

lemma filter_key_one:
  "distinct (map fst ps) \<Longrightarrow> map_of ps k = Some v \<Longrightarrow> length (filter (\<lambda>p. fst p = k) ps) = 1"
proof (induction ps)
  case Nil
  then show ?case by simp
next
  case (Cons p ps)
  show ?case
  proof (cases "fst p = k")
    case True
    with Cons.prems have "k \<notin> set (map fst ps)" by auto
    then have "filter (\<lambda>p. fst p = k) ps = []"
      by (auto simp: filter_empty_conv)
    with True show ?thesis by simp
  next
    case False
    with Cons show ?thesis by (cases p) auto
  qed
qed

lemma filter_key_le_one:
  "distinct (map fst ps) \<Longrightarrow> length (filter (\<lambda>p. fst p = k) ps) \<le> 1"
proof (cases "map_of ps k")
  case None
  then have "k \<notin> set (map fst ps)" by (simp add: keys_map_of del: set_map)
  then have "filter (\<lambda>p. fst p = k) ps = []"
    by (auto simp: filter_empty_conv)
  then show ?thesis by simp
next
  case (Some f)
  assume "distinct (map fst ps)"
  with Some show ?thesis by (simp add: filter_key_one)
qed

section \<open>Invariants of the page scan\<close>

lemma findFonts_preserves:
  assumes step: "\<And>n s p fo fo'. P fo \<Longrightarrow> setFont (newFontData n s p) fo = Inr fo' \<Longrightarrow> P fo'"
  shows "findFonts v fo = Inr fo' \<Longrightarrow> P fo \<Longrightarrow> P fo'"
    and "findFontsItems xs fo = Inr fo' \<Longrightarrow> P fo \<Longrightarrow> P fo'"
    and "findFontsKeys ps fo = Inr fo' \<Longrightarrow> P fo \<Longrightarrow> P fo'"
proof (induction v fo and xs fo and ps fo arbitrary: fo' and fo' and fo'
    rule: findFonts_findFontsItems_findFontsKeys.induct)
  case (2 ps fo)
  then show ?case
    by (auto simp: inlineFont_def split: sum.splits if_splits dest: step)
next
  case (8 x xs fo)
  then show ?case by (auto split: sum.splits)
next
  case (10 k v ps fo)
  show ?case
  proof (cases "k = ''font''")
    case True
    with "10.prems" obtain f fo1 fo2 where
      f: "nestedFont v = Inr f" and s: "setFont f fo = Inr fo1"
      and r: "findFonts v fo1 = Inr fo2" and t: "findFontsKeys ps fo2 = Inr fo'"
      by (auto split: sum.splits)
    from f obtain n st p where "f = newFontData n st p"
      by (auto simp: nestedFont_def split: sum.splits)
    with s "10.prems"(2) have "P fo1" by (auto dest: step)
    with "10.IH"(1) [of fo1 fo2] True f s r have "P fo2" by simp
    with "10.IH"(2) [of fo1 fo2 fo'] True f s r t show ?thesis by simp
  next
    case False
    with "10.prems" obtain fo2 where
      r: "findFonts v fo = Inr fo2" and t: "findFontsKeys ps fo2 = Inr fo'"
      by (auto split: sum.splits)
    with "10.IH"(1) [of fo fo2] False "10.prems"(2) have "P fo2" by simp
    with "10.IH"(2) [of fo fo2 fo'] False r t show ?thesis by simp
  qed
qed auto

lemma newFontData_style: "style (newFontData n s p) \<noteq> None \<and> style (newFontData n s p) \<noteq> Some JNull"
  by (simp add: newFontData_def)

lemma assignFont_cases:
  assumes "assignFont k f fo = Inr fo'"
  obtains (own) "map_of (props fo) k \<noteq> None" "fo' = fo\<lparr>props := updProp k f (props fo)\<rparr>"
    | (proto) "k = ''__proto__''" "map_of (props fo) k = None" "fo' = fo\<lparr>protoFont := True\<rparr>"
    | (new) "map_of (props fo) k = None" "k \<noteq> ''__proto__''"
        "fo' = fo\<lparr>props := insProp k f (props fo)\<rparr>"
proof (cases "map_of (props fo) k = None")
  case False
  with assms have "fo' = fo\<lparr>props := updProp k f (props fo)\<rparr>"
    by (simp add: assignFont_def keys_map_of del: set_map)
  with False own show ?thesis by blast
next
  case True
  show ?thesis
  proof (cases "k = ''__proto__''")
    case p: True
    with True assms have "fo' = fo\<lparr>protoFont := True\<rparr>"
      by (simp add: assignFont_def keys_map_of del: set_map)
    with True p proto show ?thesis by blast
  next
    case p: False
    with True assms have "fo' = fo\<lparr>props := insProp k f (props fo)\<rparr>"
      by (simp add: assignFont_def keys_map_of del: set_map split: if_splits)
    with True p new show ?thesis by blast
  qed
qed

lemma setFont_pageOK:
  assumes "pageOK fo" and "setFont (newFontData n s p) fo = Inr fo'"
  shows "pageOK fo'"
proof -
  let ?f = "newFontData n s p"
  from assms(2) obtain k where k: "toStrV (fontId ?f) = Inr k" and a: "assignFont k ?f fo = Inr fo'"
    by (auto simp: setFont_def split: sum.splits)
  have f: "usages ?f = []" "style ?f \<noteq> None" "style ?f \<noteq> Some JNull"
    by (simp_all add: newFontData_def)
  from a show ?thesis
  proof (cases rule: assignFont_cases)
    case own
    with assms(1) have "k \<noteq> ''__proto__''" by (auto simp: pageOK_def)
    with own assms(1) k f show ?thesis
      by (auto simp: pageOK_def keys_updProp map_of_updProp)
  next
    case proto
    with assms(1) show ?thesis by (simp add: pageOK_def)
  next
    case new
    with assms(1) k f show ?thesis
      by (auto simp: pageOK_def distinct_insProp map_of_insProp keys_map_of simp del: set_map)
  qed
qed

lemma updateFonts_pageOK: "updateFonts contents = Inr fo \<Longrightarrow> pageOK fo"
proof -
  assume u: "updateFonts contents = Inr fo"
  have e: "pageOK emptyFonts" by (simp add: pageOK_def emptyFonts_def)
  show ?thesis
  proof (cases "truthy contents")
    case True
    with u have "findFonts contents emptyFonts = Inr fo" by (simp add: updateFonts_def)
    then show ?thesis
      using findFonts_preserves(1) [of pageOK contents emptyFonts fo] setFont_pageOK e by blast
  next
    case False
    with u e show ?thesis by (simp add: updateFonts_def)
  qed
qed

section \<open>The scan of a page\<close>

text \<open>
  C6 (traversal completeness). The document
  \<^verbatim>\<open>{"a":{"font":{"family":"Foo","style":"Bold","postscriptName":"Foo-Bold"}},
    "b":[{"fontFamily":"Bar","fontStyle":null,"postscriptName":"Bar-Reg"}]}\<close>
  scans to a page font map of exactly two entries, keyed \<open>Foo-Bold\<close> and \<open>Bar-Reg\<close>, and
  the style of the second is the empty string.
\<close>

theorem traversal_completeness:
  "updateFonts
     (JObj [(''a'', JObj [(''font'', JObj [(''family'', JStr ''Foo''), (''style'', JStr ''Bold''),
                                          (''postscriptName'', JStr ''Foo-Bold'')])]),
            (''b'', JArr [JObj [(''fontFamily'', JStr ''Bar''), (''fontStyle'', JNull),
                               (''postscriptName'', JStr ''Bar-Reg'')]])])
   = Inr \<lparr>props =
            [(''Foo-Bold'', \<lparr>name = Some (JStr ''Foo''), style = Some (JStr ''Bold''),
                            postScriptName = Some (JStr ''Foo-Bold''), usages = []\<rparr>),
             (''Bar-Reg'', \<lparr>name = Some (JStr ''Bar''), style = Some (JStr []),
                           postScriptName = Some (JStr ''Bar-Reg''), usages = []\<rparr>)],
          protoFont = False\<rparr>"
  by (simp add: updateFonts_def emptyFonts_def setFont_def assignFont_def nestedFont_def
      inlineFont_def newFontData_def fontId_def keyBefore_def isArrayIndex_def isDigit_def)

text \<open>
  C5 (null style normalization). A fragment of either shape whose style field is absent or
  \<^verbatim>\<open>null\<close> gives a declaration whose style is the empty string: the inline shape reads
  \<open>fontStyle\<close> of the object itself, the nested shape reads \<open>style\<close> of the value under
  \<open>font\<close>. And no font of a scanned page ever has a style that is \<^verbatim>\<open>undefined\<close> or
  \<^verbatim>\<open>null\<close>.
\<close>

theorem null_style_normalization:
  "((map_of ps ''fontStyle'' = None \<or> map_of ps ''fontStyle'' = Some JNull) \<longrightarrow>
      style (inlineFont ps) = Some (JStr []))
   \<and> ((getProp v ''style'' = Inr None \<or> getProp v ''style'' = Inr (Some JNull)) \<longrightarrow>
      (\<exists>f. nestedFont v = Inr f \<and> style f = Some (JStr [])))
   \<and> ((updateFonts contents = Inr fo \<and> map_of (props fo) k = Some g) \<longrightarrow>
      style g \<noteq> None \<and> style g \<noteq> Some JNull)"
proof (intro conjI impI)
  assume "map_of ps ''fontStyle'' = None \<or> map_of ps ''fontStyle'' = Some JNull"
  then show "style (inlineFont ps) = Some (JStr [])"
    by (auto simp: inlineFont_def newFontData_def)
next
  assume s: "getProp v ''style'' = Inr None \<or> getProp v ''style'' = Inr (Some JNull)"
  then have "v \<noteq> JNull" by auto
  then obtain n p where "getProp v ''family'' = Inr n" "getProp v ''postscriptName'' = Inr p"
    by (cases v) auto
  with s show "\<exists>f. nestedFont v = Inr f \<and> style f = Some (JStr [])"
    by (auto simp: nestedFont_def newFontData_def)
next
  assume "updateFonts contents = Inr fo \<and> map_of (props fo) k = Some g"
  then have "pageOK fo" "map_of (props fo) k = Some g"
    by (auto dest: updateFonts_pageOK)
  then show "style g \<noteq> None" "style g \<noteq> Some JNull"
    by (auto simp: pageOK_def)
qed

theorem null_style_normalization_witness:
  "style (inlineFont [(''fontFamily'', JStr ''Bar''), (''postscriptName'', JStr ''Bar-Reg'')])
     = Some (JStr [])
   \<and> (\<exists>f. nestedFont (JObj [(''family'', JStr ''Foo''), (''style'', JNull)]) = Inr f
          \<and> style f = Some (JStr []))
   \<and> updateFonts (JArr [JObj [(''fontFamily'', JStr ''Bar''), (''fontStyle'', JNull)]])
       = Inr \<lparr>props = [(''undefined'', newFontData (Some (JStr ''Bar'')) (Some JNull) None)],
              protoFont = False\<rparr>
   \<and> style (newFontData (Some (JStr ''Bar'')) (Some JNull) None) \<noteq> None
   \<and> style (newFontData (Some (JStr ''Bar'')) (Some JNull) None) \<noteq> Some JNull"
proof -
  let ?ps = "[(''fontFamily'', JStr ''Bar''), (''postscriptName'', JStr ''Bar-Reg'')]"
  let ?v = "JObj [(''family'', JStr ''Foo''), (''style'', JNull)]"
  let ?c = "JArr [JObj [(''fontFamily'', JStr ''Bar''), (''fontStyle'', JNull)]]"
  let ?g = "newFontData (Some (JStr ''Bar'')) (Some JNull) None"
  let ?fo = "\<lparr>props = [(''undefined'', ?g)], protoFont = False\<rparr>"
  have u: "updateFonts ?c = Inr ?fo"
    by (simp add: updateFonts_def emptyFonts_def setFont_def assignFont_def inlineFont_def
        fontId_def newFontData_def)
  have m: "map_of (props ?fo) ''undefined'' = Some ?g" by simp
  show ?thesis
    using null_style_normalization [of ?ps ?v ?c ?fo "''undefined''" ?g] u m by simp
qed

lemma setFont_undefined:
  assumes "fontId f = None" and "distinct (map fst (props fo))"
  shows "\<exists>fo'. setFont f fo = Inr fo' \<and> map_of (props fo') ''undefined'' = Some f \<and>
     distinct (map fst (props fo')) \<and>
     (map_of (props fo) ''undefined'' \<noteq> None \<longrightarrow> map fst (props fo') = map fst (props fo))"
proof (cases "map_of (props fo) ''undefined''")
  case None
  then have "assignFont ''undefined'' f fo = Inr (fo\<lparr>props := insProp ''undefined'' f (props fo)\<rparr>)"
    by (simp add: assignFont_def keys_map_of del: set_map)
  with assms None show ?thesis
    by (simp add: setFont_def map_of_insProp distinct_insProp keys_map_of del: set_map)
next
  case (Some g)
  then have "assignFont ''undefined'' f fo = Inr (fo\<lparr>props := updProp ''undefined'' f (props fo)\<rparr>)"
    by (simp add: assignFont_def keys_map_of del: set_map)
  with assms Some show ?thesis
    by (simp add: setFont_def map_of_updProp keys_updProp)
qed

section \<open>Merging a page into the catalog\<close>

lemma sameFont_refl: "sameFont f f"
  by (simp add: sameFont_def)

lemma sameFont_trans: "sameFont f g \<Longrightarrow> sameFont g h \<Longrightarrow> sameFont f h"
  by (simp add: sameFont_def)

lemma sameFont_addUsage: "sameFont (addUsage l f) f"
  by (simp add: sameFont_def addUsage_def)

lemma mergeFonts_distinct:
  "mergeFonts pf index fonts = Inr fonts' \<Longrightarrow> distinct (map fst (props fonts)) \<Longrightarrow>
   distinct (map fst (props fonts'))"
proof (induction pf index fonts rule: mergeFonts.induct)
  case (1 index fonts)
  then show ?case by simp
next
  case (2 key pf rest index fonts)
  from "2.prems"(1) have h: "''hasOwnProperty'' \<notin> set (map fst (props fonts))"
    by (auto split: if_splits)
  show ?case
  proof (cases "map_of (props fonts) key")
    case None
    with h "2.prems"(1) obtain fonts1 where a: "assignFont key pf fonts = Inr fonts1"
      and r: "mergeFonts rest index fonts1 = Inr fonts'"
      by (auto split: sum.splits)
    from a "2.prems"(2) None have "distinct (map fst (props fonts1))"
      by (cases rule: assignFont_cases) (auto simp: distinct_insProp keys_map_of simp del: set_map)
    with "2.IH"(1) [OF h None a] r show ?thesis by simp
  next
    case (Some font)
    with h "2.prems"(1) obtain l where l: "pageLabel index = Inr l"
      and r: "mergeFonts rest index (fonts\<lparr>props := updProp key (addUsage l font) (props fonts)\<rparr>) = Inr fonts'"
      by (auto split: sum.splits)
    with "2.IH"(2) [OF h Some l] "2.prems"(2) show ?thesis by (simp add: keys_updProp)
  qed
qed

lemma mergeFonts_keeps:
  "mergeFonts pf index fonts = Inr fonts' \<Longrightarrow> map_of (props fonts) k = Some f \<Longrightarrow>
   \<exists>f'. map_of (props fonts') k = Some f' \<and> sameFont f' f"
proof (induction pf index fonts arbitrary: f rule: mergeFonts.induct)
  case (1 index fonts)
  then show ?case by (auto simp: sameFont_refl)
next
  case (2 key pf rest index fonts)
  from "2.prems"(1) have h: "''hasOwnProperty'' \<notin> set (map fst (props fonts))"
    by (auto split: if_splits)
  show ?case
  proof (cases "map_of (props fonts) key")
    case None
    with h "2.prems"(1) obtain fonts1 where a: "assignFont key pf fonts = Inr fonts1"
      and r: "mergeFonts rest index fonts1 = Inr fonts'"
      by (auto split: sum.splits)
    from None "2.prems"(2) have "key \<noteq> k" by auto
    with a "2.prems"(2) None have "map_of (props fonts1) k = Some f"
      by (cases rule: assignFont_cases) (auto simp: map_of_insProp)
    with "2.IH"(1) [OF h None a r] show ?thesis by simp
  next
    case (Some font)
    with h "2.prems"(1) obtain l where l: "pageLabel index = Inr l"
      and r: "mergeFonts rest index (fonts\<lparr>props := updProp key (addUsage l font) (props fonts)\<rparr>) = Inr fonts'"
      by (auto split: sum.splits)
    let ?fonts1 = "fonts\<lparr>props := updProp key (addUsage l font) (props fonts)\<rparr>"
    from Some "2.prems"(2) obtain f1 where f1: "map_of (props ?fonts1) k = Some f1" "sameFont f1 f"
      by (cases "key = k") (auto simp: map_of_updProp sameFont_addUsage sameFont_refl)
    from "2.IH"(2) [OF h Some l r f1(1)] f1(2) show ?thesis
      by (auto intro: sameFont_trans)
  qed
qed

lemma mergeFonts_absent:
  "mergeFonts pf index fonts = Inr fonts' \<Longrightarrow> map_of (props fonts) k = None \<Longrightarrow>
   map_of pf k = None \<Longrightarrow> map_of (props fonts') k = None"
proof (induction pf index fonts rule: mergeFonts.induct)
  case (1 index fonts)
  then show ?case by simp
next
  case (2 key pf rest index fonts)
  from "2.prems"(1) have h: "''hasOwnProperty'' \<notin> set (map fst (props fonts))"
    by (auto split: if_splits)
  from "2.prems"(3) have kk: "key \<noteq> k" and rk: "map_of rest k = None"
    by (auto split: if_splits)
  show ?case
  proof (cases "map_of (props fonts) key")
    case None
    with h "2.prems"(1) obtain fonts1 where a: "assignFont key pf fonts = Inr fonts1"
      and r: "mergeFonts rest index fonts1 = Inr fonts'"
      by (auto split: sum.splits)
    from a "2.prems"(2) None kk have "map_of (props fonts1) k = None"
      by (cases rule: assignFont_cases) (auto simp: map_of_insProp)
    with "2.IH"(1) [OF h None a r] rk show ?thesis by simp
  next
    case (Some font)
    with h "2.prems"(1) obtain l where l: "pageLabel index = Inr l"
      and r: "mergeFonts rest index (fonts\<lparr>props := updProp key (addUsage l font) (props fonts)\<rparr>) = Inr fonts'"
      by (auto split: sum.splits)
    from "2.prems"(2) kk Some have "map_of (updProp key (addUsage l font) (props fonts)) k = None"
      by (simp add: map_of_updProp)
    with "2.IH"(2) [OF h Some l r] rk show ?thesis by simp
  qed
qed

lemma mergeFonts_new:
  "mergeFonts pf index fonts = Inr fonts' \<Longrightarrow> map_of (props fonts) k = None \<Longrightarrow>
   map_of pf k = Some g \<Longrightarrow> k \<noteq> ''__proto__'' \<Longrightarrow>
   \<exists>f'. map_of (props fonts') k = Some f' \<and> sameFont f' g"
proof (induction pf index fonts rule: mergeFonts.induct)
  case (1 index fonts)
  then show ?case by simp
next
  case (2 key pf rest index fonts)
  from "2.prems"(1) have h: "''hasOwnProperty'' \<notin> set (map fst (props fonts))"
    by (auto split: if_splits)
  show ?case
  proof (cases "map_of (props fonts) key")
    case None
    with h "2.prems"(1) obtain fonts1 where a: "assignFont key pf fonts = Inr fonts1"
      and r: "mergeFonts rest index fonts1 = Inr fonts'"
      by (auto split: sum.splits)
    show ?thesis
    proof (cases "key = k")
      case True
      with "2.prems"(3) have "pf = g" by simp
      with a True "2.prems"(4) None have "map_of (props fonts1) k = Some g"
        by (cases rule: assignFont_cases) (auto simp: map_of_insProp)
      then show ?thesis using mergeFonts_keeps [OF r] by simp
    next
      case False
      with "2.prems"(3) have rk: "map_of rest k = Some g" by simp
      from a "2.prems"(2) None False have "map_of (props fonts1) k = None"
        by (cases rule: assignFont_cases) (auto simp: map_of_insProp)
      with "2.IH"(1) [OF h None a r] rk "2.prems"(4) show ?thesis by simp
    qed
  next
    case (Some font)
    with h "2.prems"(1) obtain l where l: "pageLabel index = Inr l"
      and r: "mergeFonts rest index (fonts\<lparr>props := updProp key (addUsage l font) (props fonts)\<rparr>) = Inr fonts'"
      by (auto split: sum.splits)
    from Some "2.prems"(2) have kk: "key \<noteq> k" by auto
    with "2.prems"(3) have rk: "map_of rest k = Some g" by simp
    from "2.prems"(2) kk Some have "map_of (updProp key (addUsage l font) (props fonts)) k = None"
      by (simp add: map_of_updProp)
    with "2.IH"(2) [OF h Some l r] rk "2.prems"(4) show ?thesis by simp
  qed
qed

lemma processPages_step:
  assumes "processPages ar (index # rest) (out, fonts) = Inr (out', fonts')"
  obtains (skipped) out1 where "pageFonts ar index = None"
      "processPages ar rest (out1, fonts) = Inr (out', fonts')"
    | (merged) fo fonts1 where "pageFonts ar index = Some fo"
      "mergeFonts (props fo) index fonts = Inr fonts1"
      "processPages ar rest (out, fonts1) = Inr (out', fonts')"
  using assms by (auto simp: pageFonts_def split: sum.splits if_splits)

lemma pageFonts_pageOK: "pageFonts ar index = Some fo \<Longrightarrow> pageOK fo"
  by (auto simp: pageFonts_def split: sum.splits if_splits dest: updateFonts_pageOK)

lemma processPages_distinct:
  "processPages ar indices (out, fonts) = Inr (out', fonts') \<Longrightarrow>
   distinct (map fst (props fonts)) \<Longrightarrow> distinct (map fst (props fonts'))"
proof (induction indices arbitrary: out fonts)
  case Nil
  then show ?case by simp
next
  case (Cons index rest)
  from Cons.prems(1) show ?case
  proof (cases rule: processPages_step)
    case (skipped out1)
    with Cons.IH Cons.prems(2) show ?thesis by blast
  next
    case (merged fo fonts1)
    with Cons.IH mergeFonts_distinct Cons.prems(2) show ?thesis by blast
  qed
qed

lemma processPages_keeps:
  "processPages ar indices (out, fonts) = Inr (out', fonts') \<Longrightarrow>
   map_of (props fonts) k = Some f \<Longrightarrow>
   \<exists>f'. map_of (props fonts') k = Some f' \<and> sameFont f' f"
proof (induction indices arbitrary: out fonts f)
  case Nil
  then show ?case by (auto simp: sameFont_refl)
next
  case (Cons index rest)
  from Cons.prems(1) show ?case
  proof (cases rule: processPages_step)
    case (skipped out1)
    with Cons.IH Cons.prems(2) show ?thesis by blast
  next
    case (merged fo fonts1)
    from mergeFonts_keeps [OF merged(2) Cons.prems(2)] obtain f1 where
      f1: "map_of (props fonts1) k = Some f1" "sameFont f1 f" by blast
    from Cons.IH [OF merged(3) f1(1)] f1(2) show ?thesis
      by (auto intro: sameFont_trans)
  qed
qed

lemma processPages_first:
  "processPages ar indices (out, fonts) = Inr (out', fonts') \<Longrightarrow>
   map_of (props fonts) k = None \<Longrightarrow>
   (case firstDeclared ar indices k of
      None \<Rightarrow> map_of (props fonts') k = None
    | Some g \<Rightarrow> (\<exists>f'. map_of (props fonts') k = Some f' \<and> sameFont f' g))"
proof (induction indices arbitrary: out fonts)
  case Nil
  then show ?case by simp
next
  case (Cons index rest)
  from Cons.prems(1) show ?case
  proof (cases rule: processPages_step)
    case (skipped out1)
    with Cons.IH [OF skipped(2) Cons.prems(2)] show ?thesis by simp
  next
    case (merged fo fonts1)
    show ?thesis
    proof (cases "map_of (props fo) k")
      case None
      from mergeFonts_absent [OF merged(2) Cons.prems(2) None]
      have "map_of (props fonts1) k = None" .
      from Cons.IH [OF merged(3) this] merged(1) None show ?thesis by simp
    next
      case (Some g)
      from pageFonts_pageOK [OF merged(1)] Some have "k \<noteq> ''__proto__''"
        by (auto simp: pageOK_def)
      from mergeFonts_new [OF merged(2) Cons.prems(2) Some this] obtain f1 where
        f1: "map_of (props fonts1) k = Some f1" "sameFont f1 g" by blast
      from processPages_keeps [OF merged(3) f1(1)] f1(2) merged(1) Some show ?thesis
        by (auto intro: sameFont_trans)
    qed
  qed
qed

section \<open>Page enumeration\<close>


lemma boards_AB: "getArtBoards manifestAB = Inr (Some [indexA, indexB])"
  by (simp add: eval_defs example_defs)







section \<open>The catalog\<close>

text \<open>
  C3 (identity merge). In the catalog \<^verbatim>\<open>makeList\<close> returns, no key occurs twice; an
  identity that no page's font map holds has no entry; and an identity that some page's
  font map holds has exactly one entry, whose \<open>name\<close> and \<open>style\<close> are those of the
  entry in the first such page's font map (which, when the page holds several fragments
  of that identity, is the fragment scanned last on that page). Whatever later pages
  declare under that identity does not show in \<open>name\<close> or \<open>style\<close>.
\<close>

theorem identity_merge:
  assumes "parseEntry (ar ''manifest'') = Inr manifest"
    and "getArtBoards manifest = Inr (Some indices)"
    and "makeList ar = Inr (out, fonts)"
  shows "distinct (map fst (props fonts)) \<and>
    length (filter (\<lambda>p. fst p = k) (props fonts)) \<le> 1 \<and>
    (case firstDeclared ar indices k of
       None \<Rightarrow> map_of (props fonts) k = None
     | Some g \<Rightarrow>
         (\<exists>f. map_of (props fonts) k = Some f \<and> length (filter (\<lambda>p. fst p = k) (props fonts)) = 1 \<and>
              name f = name g \<and> style f = style g))"
proof -
  from assms(2) have "manifest \<noteq> JNull" by (auto simp: getArtBoards_def getArtWork_def)
  with assms have p: "processPages ar indices ([], emptyFonts) = Inr (out, fonts)"
    by (simp add: makeList_def)
  have e: "distinct (map fst (props emptyFonts))" "map_of (props emptyFonts) k = None"
    by (simp_all add: emptyFonts_def)
  from processPages_distinct [OF p e(1)] have d: "distinct (map fst (props fonts))" .
  have le: "length (filter (\<lambda>p. fst p = k) (props fonts)) \<le> 1"
  proof (cases "map_of (props fonts) k")
    case None
    then have "k \<notin> set (map fst (props fonts))" by (simp add: keys_map_of del: set_map)
    then have "filter (\<lambda>p. fst p = k) (props fonts) = []"
      by (auto simp: filter_empty_conv)
    then show ?thesis by simp
  next
    case (Some f)
    with d show ?thesis by (simp add: filter_key_one)
  qed
  from processPages_first [OF p e(2)] d le show ?thesis
    by (auto simp: sameFont_def filter_key_one split: option.splits)
qed

theorem identity_merge_witness:
  "parseEntry (archiveX ''manifest'') = Inr manifestAB
   \<and> getArtBoards manifestAB = Inr (Some [indexA, indexB])
   \<and> makeList archiveX
       = Inr ([], \<lparr>props = [(''X'', fontFirstX\<lparr>usages := [''B [2]'']\<rparr>)], protoFont = False\<rparr>)
   \<and> firstDeclared archiveX [indexA, indexB] ''X'' = Some fontFirstX
   \<and> (\<exists>f. map_of [(''X'', fontFirstX\<lparr>usages := [''B [2]'']\<rparr>)] ''X'' = Some f \<and>
          name f = Some (JStr ''First'') \<and> style f = Some (JStr []))"
proof -
  let ?cat = "\<lparr>props = [(''X'', fontFirstX\<lparr>usages := [''B [2]'']\<rparr>)], protoFont = False\<rparr>"
  have h1: "parseEntry (archiveX ''manifest'') = Inr manifestAB"
    by (simp add: archiveX_def)
  have h3: "makeList archiveX = Inr ([], ?cat)"
    by (simp add: eval_defs example_defs archiveX_def firstX_def secondX_def fontFirstX_def)
  have fd: "firstDeclared archiveX [indexA, indexB] ''X'' = Some fontFirstX"
    by (simp add: eval_defs example_defs pageFonts_def archiveX_def firstX_def secondX_def
        fontFirstX_def)
  from identity_merge [OF h1 boards_AB h3, of "''X''"] fd h1 h3 boards_AB show ?thesis
    by (simp add: fontFirstX_def)
qed

text \<open>
  C1 (usage dedup), on the code. Pages \<open>A\<close> and \<open>B\<close> both declare the font \<open>Bar-Reg\<close>,
  page \<open>A\<close> twice. The catalog entry ends with the single usage \<open>B [2]\<close>: the page that
  brings an identity into the catalog is stored as scanned, with no usage, and only the
  pages after it add their label. The label \<open>A [1]\<close> of the first page is not recorded.
\<close>

theorem usage_dedup_first_page_missing:
  "makeList archiveBar
     = Inr ([], \<lparr>props = [(''Bar-Reg'', barFont\<lparr>usages := [''B [2]'']\<rparr>)], protoFont = False\<rparr>)
   \<and> pageLabel indexA = Inr ''A [1]'' \<and> pageLabel indexB = Inr ''B [2]''
   \<and> ''A [1]'' \<notin> set (usages (barFont\<lparr>usages := [''B [2]'']\<rparr>))"
  by (simp add: eval_defs example_defs archiveBar_def)

text \<open>
  C4 (usage idempotence), on the code. The scan of one page that declares \<open>Bar-Reg\<close>,
  merged once into the empty catalog, leaves the font with no usage; merged a second time
  it adds the label of the page. The usages list has length 0 after one merge and length 1
  after two.
\<close>

theorem usage_idempotence_fails_for_new_font:
  "updateFonts barFragment = Inr \<lparr>props = [(''Bar-Reg'', barFont)], protoFont = False\<rparr>
   \<and> mergeFonts [(''Bar-Reg'', barFont)] indexA emptyFonts
       = Inr \<lparr>props = [(''Bar-Reg'', barFont)], protoFont = False\<rparr>
   \<and> mergeFonts [(''Bar-Reg'', barFont)] indexA \<lparr>props = [(''Bar-Reg'', barFont)], protoFont = False\<rparr>
       = Inr \<lparr>props = [(''Bar-Reg'', barFont\<lparr>usages := [''A [1]'']\<rparr>)], protoFont = False\<rparr>
   \<and> length (usages barFont) = 0
   \<and> length (usages (barFont\<lparr>usages := [''A [1]'']\<rparr>)) = 1"
  by (simp add: eval_defs example_defs)

lemma addUsage_idem: "addUsage l (addUsage l f) = addUsage l f"
  by (simp add: addUsage_def)

lemma addUsage_count:
  "distinct (usages f) \<Longrightarrow>
   distinct (usages (addUsage l f)) \<and> length (filter (\<lambda>u. u = l) (usages (addUsage l f))) = 1"
proof -
  assume d: "distinct (usages f)"
  have c: "\<And>xs. distinct xs \<Longrightarrow> l \<in> set xs \<Longrightarrow> length (filter (\<lambda>u. u = l) xs) = 1"
  proof -
    fix xs :: "string list"
    assume "distinct xs" "l \<in> set xs"
    then show "length (filter (\<lambda>u. u = l) xs) = 1"
    proof (induction xs)
      case Nil
      then show ?case by simp
    next
      case (Cons x xs)
      show ?case
      proof (cases "x = l")
        case True
        with Cons.prems have "l \<notin> set xs" by simp
        then have "filter (\<lambda>u. u = l) xs = []" by (auto simp: filter_empty_conv)
        with True show ?thesis by simp
      next
        case False
        with Cons show ?thesis by simp
      qed
    qed
  qed
  have dd: "distinct (usages (addUsage l f))" using d by (simp add: addUsage_def)
  moreover have "l \<in> set (usages (addUsage l f))" by (simp add: addUsage_def)
  ultimately show ?thesis using c by blast
qed

text \<open>
  Usage of a font already in the catalog. What the merge of a page does to a font the
  catalog already holds (the keys of the page font map being pairwise different, as every
  scan gives them): if the page does not declare the identity the entry is unchanged; if
  it does, the entry becomes \<^verbatim>\<open>addUsage\<close> of the page label, that is, the label is
  appended unless it is present already.
\<close>

theorem merge_adds_label_once:
  assumes "mergeFonts pf index fonts = Inr fonts'"
    and "distinct (map fst pf)"
    and "map_of (props fonts) k = Some f"
  shows "(map_of pf k = None \<longrightarrow> map_of (props fonts') k = Some f)
    \<and> (map_of pf k \<noteq> None \<longrightarrow>
         (\<exists>l. pageLabel index = Inr l \<and> map_of (props fonts') k = Some (addUsage l f)))"
  using assms
proof (induction pf index fonts arbitrary: f rule: mergeFonts.induct)
  case (1 index fonts)
  then show ?case by simp
next
  case (2 key pf rest index fonts)
  from "2.prems"(1) have h: "''hasOwnProperty'' \<notin> set (map fst (props fonts))"
    by (auto split: if_splits)
  from "2.prems"(2) have dr: "distinct (map fst rest)" and kr: "map_of rest key = None"
    by (simp_all add: keys_map_of del: set_map)
  show ?case
  proof (cases "map_of (props fonts) key")
    case None
    with h "2.prems"(1) obtain fonts1 where a: "assignFont key pf fonts = Inr fonts1"
      and r: "mergeFonts rest index fonts1 = Inr fonts'"
      by (auto split: sum.splits)
    from None "2.prems"(3) have kk: "key \<noteq> k" by auto
    with a "2.prems"(3) None have "map_of (props fonts1) k = Some f"
      by (cases rule: assignFont_cases) (auto simp: map_of_insProp)
    from "2.IH"(1) [OF h None a r dr this] kk show ?thesis by simp
  next
    case (Some font)
    with h "2.prems"(1) obtain l where l: "pageLabel index = Inr l"
      and r: "mergeFonts rest index (fonts\<lparr>props := updProp key (addUsage l font) (props fonts)\<rparr>) = Inr fonts'"
      by (auto split: sum.splits)
    let ?fonts1 = "fonts\<lparr>props := updProp key (addUsage l font) (props fonts)\<rparr>"
    show ?thesis
    proof (cases "key = k")
      case True
      with Some "2.prems"(3) have ff: "font = f" by simp
      with True Some have "map_of (props ?fonts1) k = Some (addUsage l f)"
        by (simp add: map_of_updProp)
      from "2.IH"(2) [OF h Some l r dr this] kr True l show ?thesis by simp
    next
      case False
      with Some "2.prems"(3) have "map_of (props ?fonts1) k = Some f"
        by (simp add: map_of_updProp)
      from "2.IH"(2) [OF h Some l r dr this] False show ?thesis by simp
    qed
  qed
qed

theorem merge_adds_label_once_witness:
  "mergeFonts [(''Bar-Reg'', barFont)] indexB \<lparr>props = [(''Bar-Reg'', barFont)], protoFont = False\<rparr>
     = Inr \<lparr>props = [(''Bar-Reg'', barFont\<lparr>usages := [''B [2]'']\<rparr>)], protoFont = False\<rparr>
   \<and> distinct (map fst [(''Bar-Reg'', barFont)])
   \<and> map_of [(''Bar-Reg'', barFont)] ''Bar-Reg'' = Some barFont
   \<and> (\<exists>l. pageLabel indexB = Inr l \<and>
          map_of [(''Bar-Reg'', barFont\<lparr>usages := [''B [2]'']\<rparr>)] ''Bar-Reg''
            = Some (addUsage l barFont))"
proof -
  let ?pf = "[(''Bar-Reg'', barFont)]"
  let ?cat0 = "\<lparr>props = [(''Bar-Reg'', barFont)], protoFont = False\<rparr>"
  let ?cat1 = "\<lparr>props = [(''Bar-Reg'', barFont\<lparr>usages := [''B [2]'']\<rparr>)], protoFont = False\<rparr>"
  have h1: "mergeFonts ?pf indexB ?cat0 = Inr ?cat1"
    by (simp add: eval_defs example_defs)
  have h2: "distinct (map fst ?pf)" by simp
  have h3: "map_of (props ?cat0) ''Bar-Reg'' = Some barFont" by simp
  from merge_adds_label_once [OF h1 h2 h3] h1 show ?thesis by simp
qed

text \<open>
  Second merge of the same page. Merging the scan of the same page a second time
  changes nothing for a font the catalog
  held before the first merge.
\<close>

theorem merge_twice_existing_font:
  assumes "mergeFonts pf index fonts = Inr fonts1"
    and "mergeFonts pf index fonts1 = Inr fonts2"
    and "distinct (map fst pf)"
    and "map_of (props fonts) k = Some f"
  shows "map_of (props fonts2) k = map_of (props fonts1) k"
proof (cases "map_of pf k")
  case None
  with merge_adds_label_once [OF assms(1) assms(3) assms(4)]
  have 1: "map_of (props fonts1) k = Some f" by simp
  with merge_adds_label_once [OF assms(2) assms(3) 1] None show ?thesis by simp
next
  case (Some g)
  with merge_adds_label_once [OF assms(1) assms(3) assms(4)] obtain l where
    l: "pageLabel index = Inr l" and 1: "map_of (props fonts1) k = Some (addUsage l f)" by auto
  with merge_adds_label_once [OF assms(2) assms(3) 1] Some show ?thesis
    by (auto simp: addUsage_idem)
qed

theorem merge_twice_existing_font_witness:
  "mergeFonts [(''Bar-Reg'', barFont)] indexB \<lparr>props = [(''Bar-Reg'', barFont)], protoFont = False\<rparr>
     = Inr \<lparr>props = [(''Bar-Reg'', barFont\<lparr>usages := [''B [2]'']\<rparr>)], protoFont = False\<rparr>
   \<and> mergeFonts [(''Bar-Reg'', barFont)] indexB
        \<lparr>props = [(''Bar-Reg'', barFont\<lparr>usages := [''B [2]'']\<rparr>)], protoFont = False\<rparr>
     = Inr \<lparr>props = [(''Bar-Reg'', barFont\<lparr>usages := [''B [2]'']\<rparr>)], protoFont = False\<rparr>
   \<and> distinct (map fst [(''Bar-Reg'', barFont)])
   \<and> map_of [(''Bar-Reg'', barFont)] ''Bar-Reg'' = Some barFont"
proof -
  let ?pf = "[(''Bar-Reg'', barFont)]"
  let ?cat0 = "\<lparr>props = [(''Bar-Reg'', barFont)], protoFont = False\<rparr>"
  let ?cat1 = "\<lparr>props = [(''Bar-Reg'', barFont\<lparr>usages := [''B [2]'']\<rparr>)], protoFont = False\<rparr>"
  have h1: "mergeFonts ?pf indexB ?cat0 = Inr ?cat1"
    by (simp add: eval_defs example_defs)
  have h2: "mergeFonts ?pf indexB ?cat1 = Inr ?cat1"
    by (simp add: eval_defs example_defs)
  have h3: "distinct (map fst ?pf)" by simp
  have h4: "map_of (props ?cat0) ''Bar-Reg'' = Some barFont" by simp
  from merge_twice_existing_font [OF h1 h2 h3 h4] h1 h2 show ?thesis by simp
qed

lemma setFont_keeps_key:
  assumes "setFont f fo = Inr fo'" and "map_of (props fo) k \<noteq> None"
  shows "map_of (props fo') k \<noteq> None"
proof -
  from assms(1) obtain k' where a: "assignFont k' f fo = Inr fo'"
    by (auto simp: setFont_def split: sum.splits)
  from a assms(2) show ?thesis
    by (cases rule: assignFont_cases) (auto simp: map_of_updProp map_of_insProp)
qed

lemma setFont_stores_undefined:
  assumes "setFont f fo = Inr fo'" and "fontId f = None"
  shows "map_of (props fo') ''undefined'' = Some f"
proof -
  from assms have a: "assignFont ''undefined'' f fo = Inr fo'"
    by (simp add: setFont_def)
  then show ?thesis
    by (cases rule: assignFont_cases) (auto simp: map_of_updProp map_of_insProp)
qed

lemma findFonts_keeps_key:
  "findFonts v fo = Inr fo' \<Longrightarrow> map_of (props fo) k \<noteq> None \<Longrightarrow> map_of (props fo') k \<noteq> None"
  "findFontsKeys ps fo = Inr fo' \<Longrightarrow> map_of (props fo) k \<noteq> None \<Longrightarrow> map_of (props fo') k \<noteq> None"
  using findFonts_preserves(1) [of "\<lambda>fo. map_of (props fo) k \<noteq> None" v fo fo']
    findFonts_preserves(3) [of "\<lambda>fo. map_of (props fo) k \<noteq> None" ps fo fo']
    setFont_keeps_key
  by blast+

lemma findFonts_stores_undefined:
  "findFonts v fo = Inr fo' \<Longrightarrow> declaresUndefined v \<Longrightarrow> map_of (props fo') ''undefined'' \<noteq> None"
  "findFontsItems xs fo = Inr fo' \<Longrightarrow> declaresUndefinedItems xs \<Longrightarrow>
     map_of (props fo') ''undefined'' \<noteq> None"
  "findFontsKeys ps fo = Inr fo' \<Longrightarrow> declaresUndefinedKeys ps \<Longrightarrow>
     map_of (props fo') ''undefined'' \<noteq> None"
proof (induction v fo and xs fo and ps fo arbitrary: fo' and fo' and fo'
    rule: findFonts_findFontsItems_findFontsKeys.induct)
  case (1 xs fo)
  then show ?case by simp
next
  case (2 ps fo)
  show ?case
  proof (cases "map_of ps ''fontFamily'' \<noteq> None")
    case True
    with "2.prems"(1) obtain fo1 where s: "setFont (inlineFont ps) fo = Inr fo1"
      and r: "findFontsKeys ps fo1 = Inr fo'"
      by (auto split: sum.splits)
    show ?thesis
    proof (cases "map_of ps ''postscriptName'' = None")
      case n: True
      then have "fontId (inlineFont ps) = None"
        by (simp add: inlineFont_def newFontData_def fontId_def)
      with s have "map_of (props fo1) ''undefined'' \<noteq> None"
        by (simp add: setFont_stores_undefined)
      with r show ?thesis by (rule findFonts_keeps_key(2))
    next
      case False
      with "2.prems"(2) have "declaresUndefinedKeys ps" by simp
      with "2.IH" [of fo1 fo'] True s r show ?thesis by simp
    qed
  next
    case False
    with "2.prems" have r: "findFontsKeys ps fo = Inr fo'" and d: "declaresUndefinedKeys ps"
      by auto
    with "2.IH" [of fo fo'] False show ?thesis by simp
  qed
next
  case (8 x xs fo)
  from "8.prems"(1) obtain fo1 where x: "findFonts x fo = Inr fo1"
    and r: "findFontsItems xs fo1 = Inr fo'"
    by (auto split: sum.splits)
  show ?case
  proof (cases "declaresUndefined x")
    case True
    with "8.IH"(1) [OF x] have "map_of (props fo1) ''undefined'' \<noteq> None" by simp
    with r show ?thesis
      using findFonts_preserves(2) [of "\<lambda>fo. map_of (props fo) ''undefined'' \<noteq> None" xs fo1 fo']
        setFont_keeps_key by blast
  next
    case False
    with "8.prems"(2) have "declaresUndefinedItems xs" by simp
    with "8.IH"(2) [OF x r] show ?thesis by simp
  qed
next
  case (10 k v ps fo)
  from "10.prems"(1) obtain fo1 fo2 where
    s: "(if k = ''font''
            then (case nestedFont v of Inl e \<Rightarrow> Inl e | Inr f \<Rightarrow> setFont f fo)
            else Inr fo) = Inr fo1"
    and r: "findFonts v fo1 = Inr fo2" and t: "findFontsKeys ps fo2 = Inr fo'"
    by (auto split: sum.splits)
  consider (frag) "k = ''font''" "getProp v ''postscriptName'' = Inr None"
    | (inner) "declaresUndefined v" | (rest) "declaresUndefinedKeys ps"
    using "10.prems"(2) by auto
  then show ?case
  proof cases
    case frag
    with s obtain f where f: "nestedFont v = Inr f" and sf: "setFont f fo = Inr fo1"
      by (auto split: sum.splits)
    from f frag(2) have "fontId f = None"
      by (auto simp: nestedFont_def newFontData_def fontId_def split: sum.splits)
    with sf have "map_of (props fo1) ''undefined'' \<noteq> None"
      by (simp add: setFont_stores_undefined)
    with r have "map_of (props fo2) ''undefined'' \<noteq> None" by (rule findFonts_keeps_key(1))
    with t show ?thesis by (rule findFonts_keeps_key(2))
  next
    case inner
    with "10.IH"(1) [OF s r] have "map_of (props fo2) ''undefined'' \<noteq> None" by simp
    with t show ?thesis by (rule findFonts_keeps_key(2))
  next
    case rest
    with "10.IH"(2) [OF s r t] show ?thesis by simp
  qed
qed simp_all

lemma updateFonts_stores_undefined:
  assumes "updateFonts contents = Inr pfo" and "declaresUndefined contents"
  shows "\<exists>f. map_of (props pfo) ''undefined'' = Some f \<and>
     length (filter (\<lambda>p. fst p = ''undefined'') (props pfo)) = 1"
proof -
  from assms(2) have "truthy contents" by (cases contents) auto
  with assms(1) have "findFonts contents emptyFonts = Inr pfo" by (simp add: updateFonts_def)
  then have "map_of (props pfo) ''undefined'' \<noteq> None"
    using assms(2) by (rule findFonts_stores_undefined(1))
  moreover from assms(1) have "distinct (map fst (props pfo))"
    by (auto dest: updateFonts_pageOK simp: pageOK_def)
  ultimately show ?thesis by (auto simp: filter_key_one)
qed

lemma processPages_scanned:
  "processPages ar indices (out, fonts) = Inr st' \<Longrightarrow> index \<in> set indices \<Longrightarrow>
   getDataPath index = Inr dp \<Longrightarrow> ar dp = Some (Text contents) \<Longrightarrow> contents \<noteq> JNull \<Longrightarrow>
   \<exists>pfo. updateFonts contents = Inr pfo \<and> pageFonts ar index = Some pfo"
proof (induction indices arbitrary: out fonts)
  case Nil
  then show ?case by simp
next
  case (Cons i rest)
  show ?case
  proof (cases "index = i")
    case True
    with Cons.prems show ?thesis
      by (auto simp: pageFonts_def split: sum.splits)
  next
    case False
    with Cons.prems(2) have m: "index \<in> set rest" by simp
    from Cons.prems(1) obtain out1 fonts1 where "processPages ar rest (out1, fonts1) = Inr st'"
      by (auto split: sum.splits if_splits)
    from Cons.IH [OF this m Cons.prems(3) Cons.prems(4) Cons.prems(5)] show ?thesis .
  qed
qed

lemma firstDeclared_some:
  "index \<in> set indices \<Longrightarrow> pageFonts ar index = Some pfo \<Longrightarrow> map_of (props pfo) k \<noteq> None \<Longrightarrow>
   firstDeclared ar indices k \<noteq> None"
  by (induction indices) (auto split: option.splits)

lemma makeList_stores_undefined:
  assumes "parseEntry (ar ''manifest'') = Inr manifest"
    and "getArtBoards manifest = Inr (Some indices)"
    and "makeList ar = Inr (out, fonts)"
    and "index \<in> set indices"
    and "getDataPath index = Inr dp"
    and "ar dp = Some (Text contents)"
    and "declaresUndefined contents"
  shows "\<exists>f. map_of (props fonts) ''undefined'' = Some f \<and>
     length (filter (\<lambda>p. fst p = ''undefined'') (props fonts)) = 1"
proof -
  from assms(2) have "manifest \<noteq> JNull" by (auto simp: getArtBoards_def getArtWork_def)
  with assms have p: "processPages ar indices ([], emptyFonts) = Inr (out, fonts)"
    by (simp add: makeList_def)
  from assms(7) have nn: "contents \<noteq> JNull" by auto
  from processPages_scanned [OF p assms(4) assms(5) assms(6) nn] obtain pfo where
    u: "updateFonts contents = Inr pfo" and pf: "pageFonts ar index = Some pfo" by blast
  from updateFonts_stores_undefined [OF u assms(7)]
  have "map_of (props pfo) ''undefined'' \<noteq> None" by auto
  from firstDeclared_some [OF assms(4) pf this] obtain g where
    g: "firstDeclared ar indices ''undefined'' = Some g" by auto
  have e: "distinct (map fst (props emptyFonts))" "map_of (props emptyFonts) ''undefined'' = None"
    by (simp_all add: emptyFonts_def)
  from processPages_first [OF p e(2)] g obtain f where
    f: "map_of (props fonts) ''undefined'' = Some f" by auto
  from processPages_distinct [OF p e(1)] f show ?thesis
    by (auto simp: filter_key_one)
qed

text \<open>
  C10 (missing postscriptName). A fragment of either shape without a \<open>postscriptName\<close>
  gives a font whose identity is \<^verbatim>\<open>undefined\<close>; that identity converts to the key
  \<open>undefined\<close>, under which \<^verbatim>\<open>this.fonts[font.id] = font\<close> stores the font. A second such
  font replaces the first under the same key and adds no key. So the scan of a document
  that holds such a fragment gives a page font map with exactly one entry \<open>undefined\<close>
  (and no scan gives more than one); a catalog that a page font map with that key was
  merged into has exactly one; and the catalog \<^verbatim>\<open>makeList\<close> returns for an archive with
  such a page has exactly one.
\<close>

theorem undefined_identity_key:
  "(map_of ps ''postscriptName'' = None \<longrightarrow> fontId (inlineFont ps) = None)
   \<and> (getProp v ''postscriptName'' = Inr None \<longrightarrow> (\<exists>f. nestedFont v = Inr f \<and> fontId f = None))
   \<and> (fontId f1 = None \<and> fontId f2 = None \<and> distinct (map fst (props fo)) \<longrightarrow>
        toStrV (fontId f1) = Inr ''undefined'' \<and>
        (\<exists>fo1 fo2. setFont f1 fo = Inr fo1 \<and> setFont f2 fo1 = Inr fo2 \<and>
           map_of (props fo1) ''undefined'' = Some f1 \<and>
           map_of (props fo2) ''undefined'' = Some f2 \<and>
           map fst (props fo2) = map fst (props fo1) \<and>
           length (filter (\<lambda>p. fst p = ''undefined'') (props fo2)) = 1))
   \<and> (updateFonts contents = Inr pfo \<longrightarrow>
        length (filter (\<lambda>p. fst p = ''undefined'') (props pfo)) \<le> 1)
   \<and> (updateFonts contents = Inr pfo \<and> declaresUndefined contents \<longrightarrow>
        (\<exists>f. map_of (props pfo) ''undefined'' = Some f \<and>
           toStrV (fontId f) = Inr ''undefined'' \<and>
           length (filter (\<lambda>p. fst p = ''undefined'') (props pfo)) = 1))
   \<and> (mergeFonts pf index fonts = Inr fonts' \<and> distinct (map fst (props fonts)) \<and>
        map_of pf ''undefined'' = Some g \<longrightarrow>
        (\<exists>f. map_of (props fonts') ''undefined'' = Some f \<and>
           length (filter (\<lambda>p. fst p = ''undefined'') (props fonts')) = 1))
   \<and> (parseEntry (ar ''manifest'') = Inr manifest \<and>
       getArtBoards manifest = Inr (Some indices) \<and> makeList ar = Inr (out, catalog) \<and>
       page \<in> set indices \<and> getDataPath page = Inr dataPath \<and>
       ar dataPath = Some (Text document) \<and> declaresUndefined document \<longrightarrow>
        (\<exists>f. map_of (props catalog) ''undefined'' = Some f \<and>
           length (filter (\<lambda>p. fst p = ''undefined'') (props catalog)) = 1))"
proof (intro conjI impI)
  assume "map_of ps ''postscriptName'' = None"
  then show "fontId (inlineFont ps) = None"
    by (simp add: inlineFont_def newFontData_def fontId_def)
next
  assume p: "getProp v ''postscriptName'' = Inr None"
  then have "v \<noteq> JNull" by auto
  then obtain n s where "getProp v ''family'' = Inr n" "getProp v ''style'' = Inr s"
    by (cases v) auto
  with p show "\<exists>f. nestedFont v = Inr f \<and> fontId f = None"
    by (simp add: nestedFont_def newFontData_def fontId_def)
next
  assume a: "fontId f1 = None \<and> fontId f2 = None \<and> distinct (map fst (props fo))"
  then show "toStrV (fontId f1) = Inr ''undefined''" by simp
  from a setFont_undefined [of f1 fo] obtain fo1 where
    fo1: "setFont f1 fo = Inr fo1" "map_of (props fo1) ''undefined'' = Some f1"
      "distinct (map fst (props fo1))" by blast
  from a fo1 setFont_undefined [of f2 fo1] obtain fo2 where
    fo2: "setFont f2 fo1 = Inr fo2" "map_of (props fo2) ''undefined'' = Some f2"
      "distinct (map fst (props fo2))" "map fst (props fo2) = map fst (props fo1)" by auto
  from fo2 have "length (filter (\<lambda>p. fst p = ''undefined'') (props fo2)) = 1"
    by (simp add: filter_key_one)
  with fo1 fo2 show "\<exists>fo1 fo2. setFont f1 fo = Inr fo1 \<and> setFont f2 fo1 = Inr fo2 \<and>
           map_of (props fo1) ''undefined'' = Some f1 \<and>
           map_of (props fo2) ''undefined'' = Some f2 \<and>
           map fst (props fo2) = map fst (props fo1) \<and>
           length (filter (\<lambda>p. fst p = ''undefined'') (props fo2)) = 1"
    by blast
next
  assume "updateFonts contents = Inr pfo"
  then have "distinct (map fst (props pfo))"
    by (auto dest: updateFonts_pageOK simp: pageOK_def)
  then show "length (filter (\<lambda>p. fst p = ''undefined'') (props pfo)) \<le> 1"
    by (rule filter_key_le_one)
next
  assume a: "updateFonts contents = Inr pfo \<and> declaresUndefined contents"
  with updateFonts_stores_undefined [of contents pfo] obtain f where
    f: "map_of (props pfo) ''undefined'' = Some f"
      "length (filter (\<lambda>p. fst p = ''undefined'') (props pfo)) = 1" by blast
  from a have "pageOK pfo" by (auto dest: updateFonts_pageOK)
  with f(1) have "toStrV (fontId f) = Inr ''undefined''" by (auto simp: pageOK_def)
  with f show "\<exists>f. map_of (props pfo) ''undefined'' = Some f \<and>
           toStrV (fontId f) = Inr ''undefined'' \<and>
           length (filter (\<lambda>p. fst p = ''undefined'') (props pfo)) = 1"
    by blast
next
  assume a: "mergeFonts pf index fonts = Inr fonts' \<and> distinct (map fst (props fonts)) \<and>
        map_of pf ''undefined'' = Some g"
  then have d: "distinct (map fst (props fonts'))" by (auto dest: mergeFonts_distinct)
  have "\<exists>f. map_of (props fonts') ''undefined'' = Some f"
  proof (cases "map_of (props fonts) ''undefined''")
    case None
    with a mergeFonts_new [of pf index fonts fonts' "''undefined''" g] show ?thesis by auto
  next
    case (Some f0)
    with a mergeFonts_keeps [of pf index fonts fonts' "''undefined''" f0] show ?thesis by auto
  qed
  with d show "\<exists>f. map_of (props fonts') ''undefined'' = Some f \<and>
           length (filter (\<lambda>p. fst p = ''undefined'') (props fonts')) = 1"
    by (auto simp: filter_key_one)
next
  assume a: "parseEntry (ar ''manifest'') = Inr manifest \<and>
       getArtBoards manifest = Inr (Some indices) \<and> makeList ar = Inr (out, catalog) \<and>
       page \<in> set indices \<and> getDataPath page = Inr dataPath \<and>
       ar dataPath = Some (Text document) \<and> declaresUndefined document"
  then show "\<exists>f. map_of (props catalog) ''undefined'' = Some f \<and>
           length (filter (\<lambda>p. fst p = ''undefined'') (props catalog)) = 1"
    using makeList_stores_undefined [of ar manifest indices out catalog page dataPath document]
    by blast
qed

theorem undefined_identity_key_witness:
  "map_of [(''fontFamily'', JStr ''Bar'')] ''postscriptName'' = None
   \<and> fontId (inlineFont [(''fontFamily'', JStr ''Bar'')]) = None
   \<and> getProp (JObj [(''family'', JStr ''Foo''), (''style'', JStr ''Bold'')]) ''postscriptName''
       = Inr None
   \<and> (\<exists>f. nestedFont (JObj [(''family'', JStr ''Foo''), (''style'', JStr ''Bold'')]) = Inr f
          \<and> fontId f = None)
   \<and> fontId (newFontData (Some (JStr ''Bar'')) None None) = None
   \<and> fontId (newFontData (Some (JStr ''Foo'')) (Some (JStr ''Bold'')) None) = None
   \<and> distinct (map fst (props emptyFonts))
   \<and> (\<exists>fo1 fo2.
         setFont (newFontData (Some (JStr ''Bar'')) None None) emptyFonts = Inr fo1 \<and>
         setFont (newFontData (Some (JStr ''Foo'')) (Some (JStr ''Bold'')) None) fo1 = Inr fo2 \<and>
         map_of (props fo2) ''undefined''
           = Some (newFontData (Some (JStr ''Foo'')) (Some (JStr ''Bold'')) None) \<and>
         length (filter (\<lambda>p. fst p = ''undefined'') (props fo2)) = 1)
   \<and> declaresUndefined undefinedDoc
   \<and> updateFonts undefinedDoc
       = Inr \<lparr>props = [(''undefined'', newFontData (Some (JStr ''Foo'')) (Some (JStr ''Bold'')) None)],
              protoFont = False\<rparr>
   \<and> mergeFonts [(''undefined'', newFontData (Some (JStr ''Bar'')) None None)] indexA emptyFonts
       = Inr \<lparr>props = [(''undefined'', newFontData (Some (JStr ''Bar'')) None None)],
              protoFont = False\<rparr>
   \<and> length (filter (\<lambda>p. fst p = ''undefined'')
        [(''undefined'', newFontData (Some (JStr ''Bar'')) None None)]) = 1
   \<and> parseEntry (archiveUndefined ''manifest'') = Inr manifestAB
   \<and> getArtBoards manifestAB = Inr (Some [indexA, indexB])
   \<and> indexA \<in> set [indexA, indexB] \<and> getDataPath indexA = Inr pathA
   \<and> archiveUndefined pathA = Some (Text undefinedDoc)
   \<and> makeList archiveUndefined
       = Inr ([], \<lparr>props = [(''undefined'', newFontData (Some (JStr ''Foo'')) (Some (JStr ''Bold'')) None),
                             (''Bar-Reg'', barFont)],
                   protoFont = False\<rparr>)
   \<and> length (filter (\<lambda>p. fst p = ''undefined'')
        [(''undefined'', newFontData (Some (JStr ''Foo'')) (Some (JStr ''Bold'')) None),
         (''Bar-Reg'', barFont)]) = 1"
proof -
  let ?ps = "[(''fontFamily'', JStr ''Bar'')]"
  let ?v = "JObj [(''family'', JStr ''Foo''), (''style'', JStr ''Bold'')]"
  let ?f1 = "newFontData (Some (JStr ''Bar'')) None None"
  let ?f2 = "newFontData (Some (JStr ''Foo'')) (Some (JStr ''Bold'')) None"
  let ?pfo = "\<lparr>props = [(''undefined'', ?f2)], protoFont = False\<rparr>"
  let ?pf = "[(''undefined'', ?f1)]"
  let ?cat = "\<lparr>props = [(''undefined'', ?f1)], protoFont = False\<rparr>"
  let ?catalog = "\<lparr>props = [(''undefined'', ?f2), (''Bar-Reg'', barFont)], protoFont = False\<rparr>"
  have h: "map_of ?ps ''postscriptName'' = None" "getProp ?v ''postscriptName'' = Inr None"
    "fontId ?f1 = None" "fontId ?f2 = None" "distinct (map fst (props emptyFonts))"
    by (simp_all add: eval_defs)
  have d: "declaresUndefined undefinedDoc"
    by (simp add: undefinedDoc_def)
  have u: "updateFonts undefinedDoc = Inr ?pfo"
    by (simp add: eval_defs undefinedDoc_def)
  have m: "mergeFonts ?pf indexA emptyFonts = Inr ?cat" "map_of ?pf ''undefined'' = Some ?f1"
    by (simp_all add: eval_defs)
  have a: "parseEntry (archiveUndefined ''manifest'') = Inr manifestAB"
    "indexA \<in> set [indexA, indexB]" "getDataPath indexA = Inr pathA"
    "archiveUndefined pathA = Some (Text undefinedDoc)"
    by (simp_all add: archiveUndefined_def getDataPath_def example_defs)
  have ml: "makeList archiveUndefined = Inr ([], ?catalog)"
    by (simp add: eval_defs example_defs archiveUndefined_def undefinedDoc_def)
  from undefined_identity_key [of ?ps ?v ?f1 ?f2 emptyFonts undefinedDoc ?pfo ?pf indexA
      emptyFonts ?cat ?f1 archiveUndefined manifestAB "[indexA, indexB]" "[]" ?catalog indexA
      pathA undefinedDoc]
    h d u m a ml boards_AB
  show ?thesis by auto
qed

section \<open>Failures to load\<close>

text \<open>
  C2 (missing page entry), on the code. The archive lists the pages \<open>A\<close> and \<open>B\<close> and
  holds no entry at the data path of \<open>A\<close>: \<^verbatim>\<open>entry.getData()\<close> throws on the \<^verbatim>\<open>null\<close> entry,
  nothing in \<^verbatim>\<open>makeList\<close> catches it, and the run ends there without scanning \<open>B\<close>. An
  entry for \<open>A\<close> that is not well-formed JSON ends the run the same way, with the
  SyntaxError of \<^verbatim>\<open>JSON.parse\<close>. The branch that reports a page and goes on is taken only
  when the document of the page is the JSON text \<^verbatim>\<open>null\<close>.
\<close>

theorem missing_page_entry_throws:
  "makeList archiveNoA = Inl TypeError
   \<and> makeList archiveBadA = Inl SyntaxError
   \<and> makeList archiveNullA
       = Inr ([PageNotLoaded pathA], \<lparr>props = [(''Bar-Reg'', barFont)], protoFont = False\<rparr>)"
  by (simp add: eval_defs example_defs archiveNoA_def archiveBadA_def archiveNullA_def)

text \<open>
  C7 (manifest failure and empty page list), as the code has it. A manifest whose document
  is \<^verbatim>\<open>null\<close>, the one failure the test \<^verbatim>\<open>manifest.isLoaded\<close> detects, gives the empty
  catalog and a normal end after exactly one printed line, the diagnostic. A manifest
  whose page list is absent or empty gives the empty catalog and a normal end with
  nothing printed.
\<close>

theorem manifest_null_or_no_pages:
  "(ar ''manifest'' = Some (Text JNull) \<longrightarrow>
      makeList ar = Inr ([ManifestNotLoaded], emptyFonts) \<and> run ar = Inr [ManifestNotLoaded])
   \<and> (ar ''manifest'' = Some (Text manifest) \<and>
       (getArtBoards manifest = Inr None \<or> getArtBoards manifest = Inr (Some [])) \<longrightarrow>
      makeList ar = Inr ([], emptyFonts) \<and> run ar = Inr [])"
proof (intro conjI impI)
  assume a: "ar ''manifest'' = Some (Text JNull)"
  then show "makeList ar = Inr ([ManifestNotLoaded], emptyFonts)"
    by (simp add: makeList_def)
  then show "run ar = Inr [ManifestNotLoaded]"
    by (simp add: run_def emptyFonts_def)
next
  assume a: "ar ''manifest'' = Some (Text manifest) \<and>
       (getArtBoards manifest = Inr None \<or> getArtBoards manifest = Inr (Some []))"
  then have "manifest \<noteq> JNull" by (auto simp: getArtBoards_def getArtWork_def)
  with a show "makeList ar = Inr ([], emptyFonts)"
    by (auto simp: makeList_def)
  then show "run ar = Inr []"
    by (simp add: run_def emptyFonts_def)
qed

theorem manifest_null_or_no_pages_witness:
  "archiveNullManifest ''manifest'' = Some (Text JNull)
   \<and> makeList archiveNullManifest = Inr ([ManifestNotLoaded], emptyFonts)
   \<and> run archiveNullManifest = Inr [ManifestNotLoaded]
   \<and> archiveNoArtwork ''manifest'' = Some (Text (JObj [(''children'', JArr [])]))
   \<and> getArtBoards (JObj [(''children'', JArr [])]) = Inr None
   \<and> makeList archiveNoArtwork = Inr ([], emptyFonts)
   \<and> run archiveNoArtwork = Inr []
   \<and> archiveOnlyPasteboard ''manifest'' = Some (Text manifestOnlyPasteboard)
   \<and> getArtBoards manifestOnlyPasteboard = Inr (Some [])
   \<and> makeList archiveOnlyPasteboard = Inr ([], emptyFonts)
   \<and> run archiveOnlyPasteboard = Inr []"
proof -
  have h: "archiveNullManifest ''manifest'' = Some (Text JNull)"
    "archiveNoArtwork ''manifest'' = Some (Text (JObj [(''children'', JArr [])]))"
    "getArtBoards (JObj [(''children'', JArr [])]) = Inr None"
    "archiveOnlyPasteboard ''manifest'' = Some (Text manifestOnlyPasteboard)"
    "getArtBoards manifestOnlyPasteboard = Inr (Some [])"
    by (simp_all add: archiveNullManifest_def archiveNoArtwork_def archiveOnlyPasteboard_def
        manifestOnlyPasteboard_def boardP_def getArtBoards_def getArtWork_def)
  from manifest_null_or_no_pages [of archiveNullManifest "JObj [(''children'', JArr [])]"]
    manifest_null_or_no_pages [of archiveNoArtwork "JObj [(''children'', JArr [])]"]
    manifest_null_or_no_pages [of archiveOnlyPasteboard manifestOnlyPasteboard] h
  show ?thesis by simp
qed

text \<open>
  The claim C7 as it was stated fails where the manifest did not load: the run on a
  manifest whose document is \<^verbatim>\<open>null\<close> prints one line, not nothing.
\<close>

theorem manifest_failure_counterexample:
  "run archiveNullManifest = Inr [ManifestNotLoaded] \<and> run archiveNullManifest \<noteq> Inr []"
  by (simp add: eval_defs archiveNullManifest_def)

end
